theory Spec2Isabelle
  imports Main
begin

section \<open>JavaScript values shared by the three source files\<close>

text \<open>
  A thrown JavaScript value, as far as the code inspects it: \<open>error.name\<close> and
  \<open>error.message\<close> (the latter may be undefined, hence the \<open>??\<close> fallbacks).
\<close>

datatype js_error = JsError (err_name: string) (err_message: "string option")

text \<open>
  An optional string is truthy when it is defined and not empty: the test behind
  \<open>!apiKey\<close>, \<open>!event.message_id\<close>, \<open>if (writingTask)\<close>, \<open>delta?.content\<close>.
\<close>

definition truthy :: "string option \<Rightarrow> bool" where
  "truthy v = (case v of None \<Rightarrow> False | Some s \<Rightarrow> s \<noteq> [])"

section \<open>serverClient.ts\<close>

text \<open>
  The module reads two environment variables, throws while loading when one of them is
  falsy, and otherwise exports the two strings and a client constructed from them.
\<close>

datatype stream_chat = StreamChat string string

record server_module =
  apiKey :: string
  apiSecret :: string
  serverClient :: stream_chat

definition load_serverClient :: "string option \<Rightarrow> string option \<Rightarrow> js_error + server_module" where
  "load_serverClient STREAM_API_KEY STREAM_API_SECRET =
     (if \<not> truthy STREAM_API_KEY \<or> \<not> truthy STREAM_API_SECRET
      then Inl (JsError ''Error''
        (Some ''Missing Required Environment Variables For STREAAM_API_KEY and STREAM_API_SECRET''))
      else Inr \<lparr> apiKey = the STREAM_API_KEY, apiSecret = the STREAM_API_SECRET,
                 serverClient = StreamChat (the STREAM_API_KEY) (the STREAM_API_SECRET) \<rparr>)"

section \<open>The JavaScript runtime and the outside world\<close>

text \<open>
  Parsed JSON. The payload of a number plays no part in the code and is kept as an integer.
\<close>

datatype json = JNull | JBool bool | JNumber int | JString string
  | JArray "json list" | JObject "(string \<times> json) list"

text \<open>
  \<open>JSON.parse\<close> and \<open>JSON.stringify\<close> are builtins of the runtime, not code of this
  repository: they are parameters of the model. \<open>JSON.parse\<close> returns the value or the
  error it throws.
\<close>

record world =
  JSON_parse :: "string \<Rightarrow> js_error + json"
  JSON_stringify :: "json \<Rightarrow> string"

text \<open>
  Reading \<open>args.query\<close> from the parsed arguments: a property read on \<open>null\<close> throws a
  TypeError (the message is the engine's), on an object it gives the property or
  undefined (\<open>None\<close>), on every other JSON value undefined.
\<close>

definition get_query :: "json \<Rightarrow> js_error + json option" where
  "get_query args =
     (case args of
        JNull \<Rightarrow> Inl (JsError ''TypeError''
                  (Some ''Cannot read properties of null (reading 'query')''))
      | JObject kvs \<Rightarrow> Inr (map_of kvs ''query'')
      | _ \<Rightarrow> Inr None)"

text \<open>The decimal rendering of \<open>response.status\<close> inside a template literal.\<close>

definition digit_char :: "nat \<Rightarrow> char" where
  "digit_char n = ''0123456789'' ! n"

fun string_of_nat :: "nat \<Rightarrow> string" where
  "string_of_nat n =
     (if n < 10 then [digit_char n] else string_of_nat (n div 10) @ [digit_char (n mod 10)])"

text \<open>
  What one call of \<open>performWebSearch\<close> meets: the search key of the environment and the
  outcome of \<open>fetch\<close> (a thrown error or a response, whose body readers may throw too).
\<close>

record http_response =
  resp_ok :: bool
  resp_status :: nat
  resp_text :: "js_error + string"
  resp_json :: "js_error + json"

record search_env =
  TAVILY_API_KEY :: "string option"
  fetch_result :: "js_error + http_response"

text \<open>
  Calls that leave the process, in the order they are made. Console output is not
  recorded. The calls of the chat SDK are taken to return normally.
\<close>

datatype ai_state = AI_STATE_THINKING | AI_STATE_GENERATING | AI_STATE_ERROR

datatype effect =
    ChatOn string
  | ChatOff string
  | DisconnectUser
  | SendMessage string bool
  | IndicatorUpdate ai_state "string option" "string option"
  | IndicatorClear "string option" "string option"
  | PartialUpdateMessage string string
  | Fetch string string string
  | RunsCancel string string
  | OnDispose

text \<open>The events sent on the channel (\<open>channel.sendEvent\<close>).\<close>

fun is_indicator :: "effect \<Rightarrow> bool" where
  "is_indicator (IndicatorUpdate _ _ _) = True"
| "is_indicator (IndicatorClear _ _) = True"
| "is_indicator _ = False"

fun is_clear :: "effect \<Rightarrow> bool" where
  "is_clear (IndicatorClear _ _) = True"
| "is_clear _ = False"

fun is_flush :: "effect \<Rightarrow> bool" where
  "is_flush (PartialUpdateMessage _ _) = True"
| "is_flush _ = False"

section \<open>performWebSearch (OpenAIAgent.ts and OpenAIResponseHandler.ts)\<close>

definition search_request_body :: "json option \<Rightarrow> json" where
  "search_request_body query =
     JObject ((case query of None \<Rightarrow> [] | Some q \<Rightarrow> [(''query'', q)]) @
       [(''search_depth'', JString ''advanced''), (''max_results'', JNumber 5),
        (''include_answer'', JBool True), (''include_raw_content'', JBool False)])"

definition search_call :: "world \<Rightarrow> string \<Rightarrow> json option \<Rightarrow> effect" where
  "search_call w key query =
     Fetch ''https://api.tavily.com/search'' (''Bearer '' @ key)
       (JSON_stringify w (search_request_body query))"

definition no_key_payload :: json where
  "no_key_payload =
     JObject [(''error'', JString ''Web Search is Not Available, API Key Not Configured.'')]"

definition failed_payload :: "nat \<Rightarrow> string \<Rightarrow> json" where
  "failed_payload status errorText =
     JObject [(''error'', JString (''Search Failed with Status Code: '' @ string_of_nat status)),
              (''details'', JString errorText)]"

definition exception_payload :: json where
  "exception_payload = JObject [(''error'', JString ''An Exception Occurred During Web Search'')]"

text \<open>
  \<open>performWebSearch\<close> of OpenAIAgent.ts: the returned string and the network calls made.
  The \<open>try\<close> block covers \<open>fetch\<close>, \<open>response.text()\<close> and \<open>response.json()\<close>.
\<close>

definition performWebSearch :: "world \<Rightarrow> search_env \<Rightarrow> json option \<Rightarrow> string \<times> effect list" where
  "performWebSearch w env query =
     (if \<not> truthy (TAVILY_API_KEY env) then (JSON_stringify w no_key_payload, [])
      else
        let call = search_call w (the (TAVILY_API_KEY env)) query in
        (case fetch_result env of
           Inl err \<Rightarrow> (JSON_stringify w exception_payload, [call])
         | Inr response \<Rightarrow>
             if \<not> resp_ok response then
               (case resp_text response of
                  Inl err \<Rightarrow> (JSON_stringify w exception_payload, [call])
                | Inr errorText \<Rightarrow>
                    (JSON_stringify w (failed_payload (resp_status response) errorText), [call]))
             else
               (case resp_json response of
                  Inl err \<Rightarrow> (JSON_stringify w exception_payload, [call])
                | Inr data \<Rightarrow> (JSON_stringify w data, [call]))))"

text \<open>
  \<open>performWebSearch\<close> of OpenAIResponseHandler.ts: the same text, except that the
  failure branch is guarded by \<open>if (response.ok)\<close>.
\<close>

definition handler_performWebSearch ::
  "world \<Rightarrow> search_env \<Rightarrow> json option \<Rightarrow> string \<times> effect list" where
  "handler_performWebSearch w env query =
     (if \<not> truthy (TAVILY_API_KEY env) then (JSON_stringify w no_key_payload, [])
      else
        let call = search_call w (the (TAVILY_API_KEY env)) query in
        (case fetch_result env of
           Inl err \<Rightarrow> (JSON_stringify w exception_payload, [call])
         | Inr response \<Rightarrow>
             if resp_ok response then
               (case resp_text response of
                  Inl err \<Rightarrow> (JSON_stringify w exception_payload, [call])
                | Inr errorText \<Rightarrow>
                    (JSON_stringify w (failed_payload (resp_status response) errorText), [call]))
             else
               (case resp_json response of
                  Inl err \<Rightarrow> (JSON_stringify w exception_payload, [call])
                | Inr data \<Rightarrow> (JSON_stringify w data, [call]))))"

section \<open>OpenAIAgent.ts: data\<close>

text \<open>
  A turn of \<open>conversationHistory\<close>. A tool-call request is a slot of
  \<open>pendingToolCalls\<close>; that array may have holes (\<open>None\<close>), since slots are written by
  index.
\<close>

record tool_call =
  tc_id :: "string option"
  tc_type :: "string option"
  tc_name :: string
  tc_arguments :: string

datatype turn =
    SystemTurn string
  | UserTurn string
  | AssistantTurn string
  | AssistantToolCalls "tool_call option list"
  | ToolTurn "string option" string

text \<open>A chunk of the completion stream, as far as the loop reads it.\<close>

record function_delta =
  fd_name :: "string option"
  fd_arguments :: "string option"

record tool_call_delta =
  tcd_index :: nat
  tcd_id :: "string option"
  tcd_type :: "string option"
  tcd_function :: "function_delta option"

record delta =
  content :: "string option"
  tool_calls :: "tool_call_delta list option"

record choice =
  choice_delta :: "delta option"
  finish_reason :: "string option"

record chunk =
  choices0 :: "choice option"

text \<open>The placeholder message a generation writes to: \<open>channelMessage.cid\<close> and \<open>.id\<close>.\<close>

record channel_message =
  msg_cid :: string
  msg_id :: string

text \<open>The \<open>ai_indicator.stop\<close> event and the \<open>message.new\<close> event.\<close>

record stop_event =
  ev_cid :: "string option"
  ev_message_id :: "string option"

record new_message =
  m_text :: "string option"
  m_ai_generated :: bool
  m_writingTask :: "string option"

record message_event =
  e_message :: "new_message option"

text \<open>
  The agent. An \<open>AbortController\<close> is an object with an identity: \<open>fresh\<close> is the next
  unused address and \<open>signal_aborted\<close> holds the \<open>signal.aborted\<close> flag of each.
  \<open>openai\<close> is the client (its API key) once \<open>init\<close> has run.
\<close>

type_synonym controller = nat

record agent =
  openai :: "string option"
  conversationHistory :: "turn list"
  lastInteractionTs :: int
  activeStreamControllers :: "controller list"
  signal_aborted :: "controller \<Rightarrow> bool"
  fresh :: controller
  trace :: "effect list"

definition emit :: "effect \<Rightarrow> agent \<Rightarrow> agent" where
  "emit e s = s\<lparr> trace := trace s @ [e] \<rparr>"

definition push_turns :: "turn list \<Rightarrow> agent \<Rightarrow> agent" where
  "push_turns ts s = s\<lparr> conversationHistory := conversationHistory s @ ts \<rparr>"

text \<open>\<open>controllers.forEach(c => c.abort()); controllers = []\<close>, in \<open>dispose\<close> and the stop handler.\<close>

definition abort_all :: "agent \<Rightarrow> agent" where
  "abort_all s =
     s\<lparr> signal_aborted := (\<lambda>c. c \<in> set (activeStreamControllers s) \<or> signal_aborted s c),
        activeStreamControllers := [] \<rparr>"

definition new_agent :: "int \<Rightarrow> agent" where
  "new_agent now =
     \<lparr> openai = None, conversationHistory = [], lastInteractionTs = now,
       activeStreamControllers = [], signal_aborted = (\<lambda>_. False), fresh = 0, trace = [] \<rparr>"

section \<open>OpenAIAgent.ts: the system prompt\<close>

definition nl :: string where
  "nl = [CHR 0x0A]"

definition dq :: string where
  "dq = [CHR 0x22]"

definition getWritingAssistantPrompt :: "string \<Rightarrow> string option \<Rightarrow> string" where
  "getWritingAssistantPrompt currentDate context = concat
     [''You are an expert AI Writing Assistant. Your primary purpose is to be a collaborative writing partner.'', nl,
      nl,
      ''**Your Core Capabilities:**'', nl,
      ''- Content Creation, Improvement, Style Adaptation, Brainstorming, and Writing Coaching.'', nl,
      ''- **Web Search**: You have the ability to search the web for up-to-date information using the 'web_search' tool.'', nl,
      ''- **Current Date**: Today's date is '', currentDate, ''. Please use this for any time-sensitive queries.'', nl,
      nl,
      ''**Crucial Instructions:**'', nl,
      ''1.  **ALWAYS use the 'web_search' tool when the user asks for current information, news, or facts.** Your internal knowledge is outdated.'', nl,
      ''2.  When you use the 'web_search' tool, you will receive a JSON object with search results. **You MUST base your response on the information provided in that search result.** Do not rely on your pre-existing knowledge for topics that require current information.'', nl,
      ''3.  Synthesize the information from the web search to provide a comprehensive and accurate answer. Cite sources if the results include URLs.'', nl,
      nl,
      ''**Response Format:**'', nl,
      ''- Be direct and production-ready.'', nl,
      ''- Use clear formatting.'', nl,
      ''- Never begin responses with phrases like '', dq, ''Here's the edit:'', dq, '', '', dq, ''Here are the changes:'', dq, '', or similar introductory statements.'', nl,
      ''- Provide responses directly and professionally without unnecessary preambles.'', nl,
      nl,
      ''**Writing Context**: '', (if truthy context then the context else ''General writing assistance.''), nl,
      nl,
      ''Your goal is to provide accurate, current, and helpful written content. Failure to use web search for recent topics will result in an incorrect answer.'']"

section \<open>OpenAIAgent.ts: init, dispose, the stop handler, the error handler\<close>

definition init :: "string option \<Rightarrow> string \<Rightarrow> agent \<Rightarrow> js_error + agent" where
  "init GEMINI_API_KEY currentDate s =
     (if \<not> truthy GEMINI_API_KEY then Inl (JsError ''Error'' (Some ''Gemini API key is required''))
      else Inr (emit (ChatOn ''ai_indicator.stop'') (emit (ChatOn ''message.new'')
             (s\<lparr> openai := GEMINI_API_KEY,
                 conversationHistory := [SystemTurn (getWritingAssistantPrompt currentDate None)] \<rparr>))))"

definition dispose :: "agent \<Rightarrow> agent" where
  "dispose s =
     abort_all (emit DisconnectUser (emit (ChatOff ''ai_indicator.stop'')
       (emit (ChatOff ''message.new'') s)))"

definition handleStopGenerating :: "stop_event \<Rightarrow> agent \<Rightarrow> agent" where
  "handleStopGenerating event s =
     (if \<not> truthy (ev_message_id event) \<or> length (activeStreamControllers s) = 0 then s
      else emit (IndicatorClear (ev_cid event) (ev_message_id event)) (abort_all s))"

definition handleStreamError :: "js_error \<Rightarrow> channel_message \<Rightarrow> agent \<Rightarrow> agent" where
  "handleStreamError error channelMessage s =
     emit (PartialUpdateMessage (msg_id channelMessage)
            (case err_message error of Some m \<Rightarrow> m | None \<Rightarrow> ''Error generating the message''))
       (emit (IndicatorUpdate AI_STATE_ERROR (Some (msg_cid channelMessage))
               (Some (msg_id channelMessage))) s)"

section \<open>OpenAIAgent.ts: the stream loop of processMessageWithGemini\<close>

text \<open>
  \<open>pendingToolCalls\<close> is a JavaScript array written by index: reading past the end or
  at a hole gives undefined, writing past the end extends the array with holes.
\<close>

definition slot_at :: "tool_call option list \<Rightarrow> nat \<Rightarrow> tool_call option" where
  "slot_at p i = (if i < length p then p ! i else None)"

definition assign_slot :: "tool_call option list \<Rightarrow> nat \<Rightarrow> tool_call \<Rightarrow> tool_call option list" where
  "assign_slot p i v =
     (if i < length p then p[i := Some v] else p @ replicate (i - length p) None @ [Some v])"

definition update_slot ::
  "tool_call option list \<Rightarrow> nat \<Rightarrow> (tool_call \<Rightarrow> tool_call) \<Rightarrow> tool_call option list" where
  "update_slot p i f = (case slot_at p i of None \<Rightarrow> p | Some slot \<Rightarrow> p[i := Some (f slot)])"

definition delta_name :: "tool_call_delta \<Rightarrow> string option" where
  "delta_name toolCall = (case tcd_function toolCall of None \<Rightarrow> None | Some f \<Rightarrow> fd_name f)"

definition delta_arguments :: "tool_call_delta \<Rightarrow> string option" where
  "delta_arguments toolCall = (case tcd_function toolCall of None \<Rightarrow> None | Some f \<Rightarrow> fd_arguments f)"

text \<open>The body of \<open>for (const toolCall of delta.tool_calls)\<close>.\<close>

definition mergeToolCall :: "tool_call option list \<Rightarrow> tool_call_delta \<Rightarrow> tool_call option list" where
  "mergeToolCall p toolCall =
     (let i = tcd_index toolCall;
          p1 = (if slot_at p i = None
                then assign_slot p i \<lparr> tc_id = tcd_id toolCall, tc_type = tcd_type toolCall,
                                       tc_name = [], tc_arguments = [] \<rparr>
                else p);
          p2 = (if truthy (delta_name toolCall)
                then update_slot p1 i (\<lambda>slot. slot\<lparr> tc_name := tc_name slot @ the (delta_name toolCall) \<rparr>)
                else p1)
      in if truthy (delta_arguments toolCall)
         then update_slot p2 i
                (\<lambda>slot. slot\<lparr> tc_arguments := tc_arguments slot @ the (delta_arguments toolCall) \<rparr>)
         else p2)"

text \<open>\<open>chunk.choices[0]?.delta?.content\<close>, \<open>?.tool_calls\<close> and \<open>chunk.choices[0]?.finish_reason\<close>.\<close>

definition chunk_delta :: "chunk \<Rightarrow> delta option" where
  "chunk_delta c = (case choices0 c of None \<Rightarrow> None | Some ch \<Rightarrow> choice_delta ch)"

definition chunk_content :: "chunk \<Rightarrow> string option" where
  "chunk_content c = (case chunk_delta c of None \<Rightarrow> None | Some d \<Rightarrow> content d)"

definition chunk_tool_calls :: "chunk \<Rightarrow> tool_call_delta list option" where
  "chunk_tool_calls c = (case chunk_delta c of None \<Rightarrow> None | Some d \<Rightarrow> tool_calls d)"

definition chunk_finish_reason :: "chunk \<Rightarrow> string option" where
  "chunk_finish_reason c = (case choices0 c of None \<Rightarrow> None | Some ch \<Rightarrow> finish_reason ch)"

text \<open>
  What the consumer meets while it iterates the stream: a chunk (with the reading
  \<open>Date.now()\<close> gives while the chunk is handled), an error thrown by the pull, or an
  \<open>ai_indicator.stop\<close> event that the event loop delivers to the stop handler while the
  consumer is suspended. The end of the list is the end of the stream. A stop event that
  arrives during another \<open>await\<close> of the generation (the indicator, the creation of the
  stream, a write of the message) is seen by the loop at its next chunk, like one that
  arrives while the loop awaits that chunk; events during the searches of the tool calls
  are not modelled.
\<close>

datatype stream_item = Chunk chunk int | StreamThrows js_error | StopArrives stop_event

datatype loop_exit =
    LoopEnded string
  | ToolCallsRequested "tool_call option list"
  | LoopThrew js_error

text \<open>
  The \<open>for await\<close> loop with its three local variables. \<open>LoopEnded\<close> is the exit at the
  end of the stream and the exit by \<open>break\<close>: both continue after the loop.
\<close>

fun for_await ::
  "controller \<Rightarrow> channel_message \<Rightarrow> stream_item list \<Rightarrow> string \<Rightarrow> int \<Rightarrow> tool_call option list
     \<Rightarrow> agent \<Rightarrow> loop_exit \<times> agent" where
  "for_await controller channelMessage [] messageText lastUpdateTime pendingToolCalls s =
     (LoopEnded messageText, s)"
| "for_await controller channelMessage (StreamThrows error # rest) messageText lastUpdateTime
     pendingToolCalls s = (LoopThrew error, s)"
| "for_await controller channelMessage (StopArrives event # rest) messageText lastUpdateTime
     pendingToolCalls s =
     for_await controller channelMessage rest messageText lastUpdateTime pendingToolCalls
       (handleStopGenerating event s)"
| "for_await controller channelMessage (Chunk chunk now # rest) messageText lastUpdateTime
     pendingToolCalls s =
     (if signal_aborted s controller then (LoopEnded messageText, s)
      else
        let hasContent = truthy (chunk_content chunk);
            messageText' = (if hasContent then messageText @ the (chunk_content chunk) else messageText);
            flush = (hasContent \<and> now - lastUpdateTime > 1000);
            s' = (if flush then emit (PartialUpdateMessage (msg_id channelMessage) messageText') s else s);
            lastUpdateTime' = (if flush then now else lastUpdateTime);
            pendingToolCalls' =
              (case chunk_tool_calls chunk of
                 None \<Rightarrow> pendingToolCalls
               | Some tcs \<Rightarrow> foldl mergeToolCall pendingToolCalls tcs)
        in if chunk_finish_reason chunk = Some ''tool_calls'' \<and> length pendingToolCalls' > 0
           then (ToolCallsRequested pendingToolCalls', s')
           else for_await controller channelMessage rest messageText' lastUpdateTime'
                  pendingToolCalls' s')"

section \<open>OpenAIAgent.ts: handleToolCalls and processMessageWithGemini\<close>

definition failed_search_payload :: json where
  "failed_search_payload = JObject [(''error'', JString ''Failed to perform web search'')]"

text \<open>
  The loop over the tool calls. Iterating a hole of the array gives undefined, and reading
  \<open>toolCall.function\<close> of it throws outside the inner \<open>try\<close>. The inner \<open>catch\<close> covers
  \<open>JSON.parse\<close> and the read of \<open>args.query\<close>. The search of the call at position \<open>k\<close>
  meets \<open>envs k\<close>.
\<close>

fun toolLoop ::
  "world \<Rightarrow> (nat \<Rightarrow> search_env) \<Rightarrow> nat \<Rightarrow> tool_call option list \<Rightarrow> turn list \<Rightarrow> agent
     \<Rightarrow> js_error option \<times> turn list \<times> agent" where
  "toolLoop w envs k [] toolResults s = (None, toolResults, s)"
| "toolLoop w envs k (None # rest) toolResults s =
     (Some (JsError ''TypeError'' (Some ''Cannot read properties of undefined (reading 'function')'')),
      toolResults, s)"
| "toolLoop w envs k (Some toolCall # rest) toolResults s =
     (if tc_name toolCall = ''web_search'' then
        (case JSON_parse w (tc_arguments toolCall) of
           Inl error \<Rightarrow>
             toolLoop w envs (Suc k) rest
               (toolResults @ [ToolTurn (tc_id toolCall) (JSON_stringify w failed_search_payload)]) s
         | Inr args \<Rightarrow>
             (case get_query args of
                Inl error \<Rightarrow>
                  toolLoop w envs (Suc k) rest
                    (toolResults @ [ToolTurn (tc_id toolCall) (JSON_stringify w failed_search_payload)]) s
              | Inr query \<Rightarrow>
                  toolLoop w envs (Suc k) rest
                    (toolResults @ [ToolTurn (tc_id toolCall) (fst (performWebSearch w (envs k) query))])
                    (s\<lparr> trace := trace s @ snd (performWebSearch w (envs k) query) \<rparr>)))
      else toolLoop w envs (Suc k) rest toolResults s)"

text \<open>The \<open>catch\<close> and the \<open>finally\<close> of \<open>processMessageWithGemini\<close>.\<close>

definition catch_error :: "js_error \<Rightarrow> channel_message \<Rightarrow> agent \<Rightarrow> agent" where
  "catch_error error channelMessage s =
     (if err_name error \<noteq> ''AbortError'' then handleStreamError error channelMessage s else s)"

definition retire :: "controller \<Rightarrow> agent \<Rightarrow> agent" where
  "retire controller s =
     s\<lparr> activeStreamControllers := filter (\<lambda>c. c \<noteq> controller) (activeStreamControllers s) \<rparr>"

text \<open>\<open>new AbortController()\<close> followed by the push on the active list.\<close>

definition register_controller :: "agent \<Rightarrow> agent" where
  "register_controller s =
     s\<lparr> fresh := Suc (fresh s),
        signal_aborted := (signal_aborted s)(fresh s := False),
        activeStreamControllers := activeStreamControllers s @ [fresh s] \<rparr>"

text \<open>
  One generation is one call of \<open>chat.completions.create\<close>: it throws or gives a stream.
  When the generation ends in tool calls, \<open>search_envs\<close> is what the searches meet. The
  list of generations is the script of the model API for one user message; the recursion
  through \<open>handleToolCalls\<close> takes the next one. A script that is too short gives \<open>None\<close>.
\<close>

record generation =
  create_result :: "js_error + stream_item list"
  search_envs :: "nat \<Rightarrow> search_env"

fun processMessageWithGemini ::
  "world \<Rightarrow> generation list \<Rightarrow> channel_message \<Rightarrow> agent \<Rightarrow> agent option"
and handleToolCalls ::
  "world \<Rightarrow> generation list \<Rightarrow> (nat \<Rightarrow> search_env) \<Rightarrow> tool_call option list \<Rightarrow> channel_message
     \<Rightarrow> agent \<Rightarrow> (js_error option \<times> agent) option" where
  "processMessageWithGemini w [] channelMessage s = (if openai s = None then Some s else None)"
| "processMessageWithGemini w (g # rest) channelMessage s =
     (if openai s = None then Some s
      else
        (case create_result g of
           Inl error \<Rightarrow>
             Some (retire (fresh s) (catch_error error channelMessage
               (emit (IndicatorUpdate AI_STATE_GENERATING (Some (msg_cid channelMessage))
                       (Some (msg_id channelMessage))) (register_controller s))))
         | Inr stream \<Rightarrow>
             (case for_await (fresh s) channelMessage stream [] 0 []
                     (emit (IndicatorUpdate AI_STATE_GENERATING (Some (msg_cid channelMessage))
                             (Some (msg_id channelMessage))) (register_controller s)) of
                (LoopThrew error, s3) \<Rightarrow>
                  Some (retire (fresh s) (catch_error error channelMessage s3))
              | (LoopEnded messageText, s3) \<Rightarrow>
                  Some (retire (fresh s)
                    (emit (IndicatorClear (Some (msg_cid channelMessage)) (Some (msg_id channelMessage)))
                      (push_turns [AssistantTurn messageText]
                        (emit (PartialUpdateMessage (msg_id channelMessage) messageText) s3))))
              | (ToolCallsRequested toolCalls, s3) \<Rightarrow>
                  (case handleToolCalls w rest (search_envs g) toolCalls channelMessage s3 of
                     None \<Rightarrow> None
                   | Some (Some error, s4) \<Rightarrow>
                       Some (retire (fresh s) (catch_error error channelMessage s4))
                   | Some (None, s4) \<Rightarrow> Some (retire (fresh s) s4)))))"
| "handleToolCalls w gens envs toolCalls channelMessage s =
     (if openai s = None then Some (None, s)
      else
        (case toolLoop w envs 0 toolCalls [] (push_turns [AssistantToolCalls toolCalls] s) of
           (Some error, toolResults, s1) \<Rightarrow> Some (Some error, s1)
         | (None, toolResults, s1) \<Rightarrow>
             map_option (Pair None)
               (processMessageWithGemini w gens channelMessage (push_turns toolResults s1))))"

section \<open>OpenAIAgent.ts: handleMessage\<close>

text \<open>
  What \<open>handleMessage\<close> reads from outside: the clock, the formatted date of the prompt,
  and the placeholder message that \<open>channel.sendMessage\<close> returns.
\<close>

record message_env =
  env_now :: int
  env_currentDate :: string
  env_placeholder :: channel_message

text \<open>\<open>this.conversationHistory[0] = ...\<close>: on an empty array the write creates element 0.\<close>

definition set_system_prompt :: "turn \<Rightarrow> turn list \<Rightarrow> turn list" where
  "set_system_prompt t h = (case h of [] \<Rightarrow> [t] | _ # r \<Rightarrow> t # r)"

text \<open>The trimming statement: \<open>[h[0], ...h.slice(-20)]\<close> when the length exceeds 21.\<close>

definition trim_history :: "turn list \<Rightarrow> turn list" where
  "trim_history h = (if length h > 21 then (h ! 0) # drop (length h - 20) h else h)"

text \<open>
  The synchronous part of \<open>handleMessage\<close> after its guards: the timestamp, the system
  prompt of a writing task, the user turn and the trimming.
\<close>

definition handleMessage_sync :: "message_env \<Rightarrow> string \<Rightarrow> string option \<Rightarrow> agent \<Rightarrow> agent" where
  "handleMessage_sync env message writingTask s =
     (let s1 = s\<lparr> lastInteractionTs := env_now env \<rparr>;
          s2 = (if truthy writingTask
                then s1\<lparr> conversationHistory :=
                       set_system_prompt
                         (SystemTurn (getWritingAssistantPrompt (env_currentDate env)
                            (Some (''Writing Task: '' @ the writingTask))))
                         (conversationHistory s1) \<rparr>
                else s1);
          s3 = push_turns [UserTurn message] s2
      in s3\<lparr> conversationHistory := trim_history (conversationHistory s3) \<rparr>)"

definition handleMessage ::
  "world \<Rightarrow> message_env \<Rightarrow> generation list \<Rightarrow> message_event \<Rightarrow> agent \<Rightarrow> agent option" where
  "handleMessage w env gens e s =
     (if openai s = None then Some s
      else
        (case e_message e of
           None \<Rightarrow> Some s
         | Some m \<Rightarrow>
             if m_ai_generated m then Some s
             else if \<not> truthy (m_text m) then Some s
             else
               processMessageWithGemini w gens (env_placeholder env)
                 (emit (IndicatorUpdate AI_STATE_THINKING (Some (msg_cid (env_placeholder env)))
                         (Some (msg_id (env_placeholder env))))
                   (emit (SendMessage [] True)
                     (handleMessage_sync env (the (m_text m)) (m_writingTask m) s)))))"

section \<open>OpenAIResponseHandler.ts\<close>

text \<open>
  The handler of one assistant run. \<open>h_message\<close> is the message it writes to and
  \<open>h_thread_id\<close> the id of its thread; the client and the thread are constructor
  arguments and never undefined, so the test \<open>!this.openai || !this.openAiThread\<close> is
  false and only \<open>!this.run_id\<close> remains.
\<close>

record handler =
  message_text :: string
  chunk_counter :: nat
  run_id :: string
  is_done :: bool
  last_update_time :: int
  h_thread_id :: string
  h_message :: channel_message
  h_trace :: "effect list"

definition h_emit :: "effect \<Rightarrow> handler \<Rightarrow> handler" where
  "h_emit e h = h\<lparr> h_trace := h_trace h @ [e] \<rparr>"

definition new_handler :: "string \<Rightarrow> channel_message \<Rightarrow> handler" where
  "new_handler thread_id message =
     \<lparr> message_text = [], chunk_counter = 0, run_id = [], is_done = False,
       last_update_time = 0, h_thread_id = thread_id, h_message = message,
       h_trace = [ChatOn ''ai_indicator.stop''] \<rparr>"

definition handler_dispose :: "handler \<Rightarrow> handler" where
  "handler_dispose h =
     (if is_done h then h
      else h_emit OnDispose (h_emit (ChatOff ''ai_indicator.stop'') (h\<lparr> is_done := True \<rparr>)))"

text \<open>
  The stop handler. The cancellation of the run is awaited inside a \<open>try\<close> whose \<open>catch\<close>
  only logs, so its outcome does not change what follows.
\<close>

definition handler_handleStopGenerating :: "stop_event \<Rightarrow> handler \<Rightarrow> handler" where
  "handler_handleStopGenerating event h =
     (if is_done h \<or> ev_message_id event \<noteq> Some (msg_id (h_message h)) then h
      else if run_id h = [] then h
      else handler_dispose
             (h_emit (IndicatorClear (Some (msg_cid (h_message h))) (Some (msg_id (h_message h))))
               (h_emit (RunsCancel (run_id h) (h_thread_id h)) h)))"

text \<open>
  The events of the assistant stream, as far as the handler reads them. For a message
  delta: \<open>event.data.delta.content?.[0]\<close>, which for type text carries a text object
  (possibly missing) with a value (possibly missing), and the clock reading. For a
  completed message: \<open>event.data.content[0]\<close>.
\<close>

datatype text_delta = TextDelta "string option option" | OtherDelta

datatype completed_content = CompletedText string | CompletedOther

datatype assistant_stream_event =
    ThreadRunCreated string
  | ThreadMessageDelta "text_delta option" int
  | ThreadMessageCompleted "completed_content option"
  | ThreadRunStepCreated string
  | OtherStreamEvent

fun handleStreamEvent :: "assistant_stream_event \<Rightarrow> handler \<Rightarrow> js_error + handler" where
  "handleStreamEvent (ThreadRunCreated rid) h = Inr (h\<lparr> run_id := rid \<rparr>)"
| "handleStreamEvent (ThreadMessageDelta (Some (TextDelta (Some v))) now) h =
     (let text' = message_text h @ (if truthy v then the v else []);
          h1 = h\<lparr> message_text := text' \<rparr>;
          h2 = (if now - last_update_time h1 > 1000
                then (h_emit (PartialUpdateMessage (msg_id (h_message h)) text') h1)
                       \<lparr> last_update_time := now \<rparr>
                else h1)
      in Inr (h2\<lparr> chunk_counter := chunk_counter h2 + 1 \<rparr>))"
| "handleStreamEvent (ThreadMessageDelta _ now) h = Inr h"
| "handleStreamEvent (ThreadMessageCompleted None) h =
     Inl (JsError ''TypeError'' (Some ''Cannot read properties of undefined (reading 'type')''))"
| "handleStreamEvent (ThreadMessageCompleted (Some c)) h =
     Inr (h_emit (IndicatorClear (Some (msg_cid (h_message h))) (Some (msg_id (h_message h))))
           (h_emit (PartialUpdateMessage (msg_id (h_message h))
                     (case c of CompletedText v \<Rightarrow> v | CompletedOther \<Rightarrow> message_text h)) h))"
| "handleStreamEvent (ThreadRunStepCreated step_type) h =
     Inr (if step_type = ''message_creation''
          then h_emit (IndicatorUpdate AI_STATE_GENERATING (Some (msg_cid (h_message h)))
                        (Some (msg_id (h_message h)))) h
          else h)"
| "handleStreamEvent OtherStreamEvent h = Inr h"

text \<open>A stream of events handled in order; the first throw ends the run.\<close>

fun handleStreamEvents :: "assistant_stream_event list \<Rightarrow> handler \<Rightarrow> js_error + handler" where
  "handleStreamEvents [] h = Inr h"
| "handleStreamEvents (e # es) h =
     (case handleStreamEvent e h of Inl err \<Rightarrow> Inl err | Inr h' \<Rightarrow> handleStreamEvents es h')"

section \<open>Concrete inputs for the runs evaluated below\<close>

text \<open>A chunk that carries only a text delta, and one that carries only tool-call deltas.\<close>

definition text_chunk :: "string \<Rightarrow> chunk" where
  "text_chunk x =
     \<lparr> choices0 = Some \<lparr> choice_delta = Some \<lparr> content = Some x, tool_calls = None \<rparr>,
                          finish_reason = None \<rparr> \<rparr>"

definition tool_chunk :: "tool_call_delta list \<Rightarrow> string option \<Rightarrow> chunk" where
  "tool_chunk tcs reason =
     \<lparr> choices0 = Some \<lparr> choice_delta = Some \<lparr> content = None, tool_calls = Some tcs \<rparr>,
                          finish_reason = reason \<rparr> \<rparr>"

definition tool_delta :: "nat \<Rightarrow> string option \<Rightarrow> string option \<Rightarrow> string option \<Rightarrow> tool_call_delta" where
  "tool_delta i call_id name arguments =
     \<lparr> tcd_index = i, tcd_id = call_id, tcd_type = Some ''function'',
       tcd_function = Some \<lparr> fd_name = name, fd_arguments = arguments \<rparr> \<rparr>"

text \<open>
  A runtime for the examples: a renderer of JSON values whose strings need no escaping,
  and a parser that knows one argument text and throws on every other.
\<close>

fun comma_join :: "string list \<Rightarrow> string" where
  "comma_join [] = []"
| "comma_join [x] = x"
| "comma_join (x # y # ys) = x @ '','' @ comma_join (y # ys)"

fun json_text :: "json \<Rightarrow> string" where
  "json_text JNull = ''null''"
| "json_text (JBool b) = (if b then ''true'' else ''false'')"
| "json_text (JNumber n) =
     (if n < 0 then ''-'' @ string_of_nat (nat (- n)) else string_of_nat (nat n))"
| "json_text (JString s) = dq @ s @ dq"
| "json_text (JArray xs) = ''['' @ comma_join (map json_text xs) @ '']''"
| "json_text (JObject kvs) =
     ''{'' @ comma_join (map (\<lambda>kv. dq @ fst kv @ dq @ '':'' @ json_text (snd kv)) kvs) @ ''}''"

definition example_parse :: "string \<Rightarrow> js_error + json" where
  "example_parse s =
     (if s = ''{'' @ dq @ ''query'' @ dq @ '':'' @ dq @ ''isabelle'' @ dq @ ''}''
      then Inr (JObject [(''query'', JString ''isabelle'')])
      else Inl (JsError ''SyntaxError'' (Some ''Unexpected token'')))"

definition example_world :: world where
  "example_world = \<lparr> JSON_parse = example_parse, JSON_stringify = json_text \<rparr>"

definition no_search :: "nat \<Rightarrow> search_env" where
  "no_search k = \<lparr> TAVILY_API_KEY = None, fetch_result = Inl (JsError ''TypeError'' (Some ''fetch failed'')) \<rparr>"

definition ready_agent :: agent where
  "ready_agent = (case init (Some ''gemini-key'') ''November 3, 2026'' (new_agent 1700000000000) of
                    Inr s \<Rightarrow> s | Inl _ \<Rightarrow> new_agent 1700000000000)"

text \<open>User messages handled one after another, each to the end of its generation.\<close>

fun handleMessages ::
  "world \<Rightarrow> (message_env \<times> generation list \<times> message_event) list \<Rightarrow> agent \<Rightarrow> agent option" where
  "handleMessages w [] s = Some s"
| "handleMessages w ((env, gens, e) # rest) s =
     (case handleMessage w env gens e s of None \<Rightarrow> None | Some s' \<Rightarrow> handleMessages w rest s')"

definition example_env :: message_env where
  "example_env = \<lparr> env_now = 1700000000000, env_currentDate = ''November 3, 2026'',
                    env_placeholder = \<lparr> msg_cid = ''c1'', msg_id = ''m1'' \<rparr> \<rparr>"

definition user_says :: "string \<Rightarrow> message_event" where
  "user_says x = \<lparr> e_message = Some \<lparr> m_text = Some x, m_ai_generated = False,
                                        m_writingTask = None \<rparr> \<rparr>"

definition answer :: "string \<Rightarrow> generation" where
  "answer x = \<lparr> create_result = Inr [Chunk (text_chunk x) 1700000000000], search_envs = no_search \<rparr>"

section \<open>Vocabulary of the properties\<close>

text \<open>
  The piece a tool-call fragment contributes to the name and to the arguments of its slot
  (nothing when the fragment does not carry one), the fragments of a chunk, and the
  fragments of a stream in the order of arrival.
\<close>

definition name_piece :: "tool_call_delta \<Rightarrow> string" where
  "name_piece d = (case delta_name d of None \<Rightarrow> [] | Some x \<Rightarrow> x)"

definition arguments_piece :: "tool_call_delta \<Rightarrow> string" where
  "arguments_piece d = (case delta_arguments d of None \<Rightarrow> [] | Some x \<Rightarrow> x)"

definition chunk_fragments :: "chunk \<Rightarrow> tool_call_delta list" where
  "chunk_fragments c = (case chunk_tool_calls c of None \<Rightarrow> [] | Some tcs \<Rightarrow> tcs)"

fun item_fragments :: "stream_item \<Rightarrow> tool_call_delta list" where
  "item_fragments (Chunk c now) = chunk_fragments c"
| "item_fragments _ = []"

definition stream_fragments :: "stream_item list \<Rightarrow> tool_call_delta list" where
  "stream_fragments items = concat (map item_fragments items)"

text \<open>The text a chunk adds to the message (nothing when it carries no content).\<close>

definition delta_text :: "chunk \<Rightarrow> string" where
  "delta_text c = (case chunk_content c of None \<Rightarrow> [] | Some x \<Rightarrow> x)"

text \<open>The clock readings of a stream, and the number of message writes in a trace.\<close>

fun item_times :: "stream_item list \<Rightarrow> int list" where
  "item_times [] = []"
| "item_times (Chunk c now # rest) = now # item_times rest"
| "item_times (_ # rest) = item_times rest"

definition flush_count :: "agent \<Rightarrow> nat" where
  "flush_count s = length (filter is_flush (trace s))"

definition ceil_div :: "int \<Rightarrow> int \<Rightarrow> int" where
  "ceil_div a b = - ((- a) div b)"

text \<open>
  One turn of the loop on a chunk, in parts: whether it writes the message, and the local
  variables and the state after it.
\<close>

definition step_flush :: "chunk \<Rightarrow> int \<Rightarrow> int \<Rightarrow> bool" where
  "step_flush c now lastUpdateTime = (truthy (chunk_content c) \<and> now - lastUpdateTime > 1000)"

definition step_time :: "chunk \<Rightarrow> int \<Rightarrow> int \<Rightarrow> int" where
  "step_time c now lastUpdateTime = (if step_flush c now lastUpdateTime then now else lastUpdateTime)"

definition step_state :: "channel_message \<Rightarrow> chunk \<Rightarrow> int \<Rightarrow> string \<Rightarrow> int \<Rightarrow> agent \<Rightarrow> agent" where
  "step_state m c now messageText lastUpdateTime s =
     (if step_flush c now lastUpdateTime
      then emit (PartialUpdateMessage (msg_id m) (messageText @ delta_text c)) s else s)"

definition step_pending :: "tool_call option list \<Rightarrow> chunk \<Rightarrow> tool_call option list" where
  "step_pending pend c = foldl mergeToolCall pend (chunk_fragments c)"

text \<open>A stream item that is a chunk without tool-call fragments, and the text an item adds.\<close>

fun is_text_item :: "stream_item \<Rightarrow> bool" where
  "is_text_item (Chunk c now) = (chunk_fragments c = [])"
| "is_text_item _ = False"

fun item_text :: "stream_item \<Rightarrow> string" where
  "item_text (Chunk c now) = delta_text c"
| "item_text _ = []"

text \<open>A chunk that carries neither text nor tool-call fragments.\<close>

fun is_quiet :: "stream_item \<Rightarrow> bool" where
  "is_quiet (Chunk c now) = (\<not> truthy (chunk_content c) \<and> chunk_fragments c = [])"
| "is_quiet _ = False"






text \<open>
  For the response handler: the text a stream event adds to \<open>message_text\<close>, its clock
  reading, and the number of message writes in the handler's trace.
\<close>

fun event_text :: "assistant_stream_event \<Rightarrow> string" where
  "event_text (ThreadMessageDelta (Some (TextDelta (Some (Some v)))) now) = v"
| "event_text _ = []"

fun is_delta_event :: "assistant_stream_event \<Rightarrow> bool" where
  "is_delta_event (ThreadMessageDelta d now) = True"
| "is_delta_event _ = False"

fun event_times :: "assistant_stream_event list \<Rightarrow> int list" where
  "event_times [] = []"
| "event_times (ThreadMessageDelta d now # rest) = now # event_times rest"
| "event_times (_ # rest) = event_times rest"

definition h_flush_count :: "handler \<Rightarrow> nat" where
  "h_flush_count h = length (filter is_flush (h_trace h))"

text \<open>
  For the conversation history: the turns that a generation and its tool rounds append,
  the user turns, the events that pass the guards of \<open>handleMessage\<close> with their text
  and writing task, and the system prompt in force after one event and after a sequence
  of events.
\<close>

fun is_reply :: "turn \<Rightarrow> bool" where
  "is_reply (AssistantTurn x) = True"
| "is_reply (AssistantToolCalls cs) = True"
| "is_reply (ToolTurn i x) = True"
| "is_reply _ = False"

fun is_user_turn :: "turn \<Rightarrow> bool" where
  "is_user_turn (UserTurn x) = True"
| "is_user_turn _ = False"

definition accepted :: "message_event \<Rightarrow> bool" where
  "accepted e = (case e_message e of None \<Rightarrow> False
                 | Some m \<Rightarrow> \<not> m_ai_generated m \<and> truthy (m_text m))"

definition user_text :: "message_event \<Rightarrow> string" where
  "user_text e = the (m_text (the (e_message e)))"

definition writing_task :: "message_event \<Rightarrow> string option" where
  "writing_task e = m_writingTask (the (e_message e))"

definition prompt_after :: "message_env \<Rightarrow> message_event \<Rightarrow> string \<Rightarrow> string" where
  "prompt_after env e p =
     (if accepted e \<and> truthy (writing_task e)
      then getWritingAssistantPrompt (env_currentDate env)
             (Some (''Writing Task: '' @ the (writing_task e)))
      else p)"

fun prompts_after ::
  "(message_env \<times> generation list \<times> message_event) list \<Rightarrow> string \<Rightarrow> string" where
  "prompts_after [] p = p"
| "prompts_after ((env, gens, e) # rest) p = prompts_after rest (prompt_after env e p)"

fun user_turns :: "(message_env \<times> generation list \<times> message_event) list \<Rightarrow> turn list" where
  "user_turns [] = []"
| "user_turns ((env, gens, e) # rest) =
     (if accepted e then UserTurn (user_text e) # user_turns rest else user_turns rest)"

text \<open>The turns kept by one accepted user message: the last twenty, the new one included.\<close>

definition kept_turns :: "message_event \<Rightarrow> turn list \<Rightarrow> turn list" where
  "kept_turns e rest =
     (if accepted e
      then drop (length (rest @ [UserTurn (user_text e)]) - 20) (rest @ [UserTurn (user_text e)])
      else rest)"

section \<open>Properties of serverClient.ts\<close>

text \<open>
  C10 (as stated) fails for a variable that is present but empty: \<open>!apiKey\<close> is true for
  the empty string, so with both variables set, the key to the empty string, the module
  throws.
\<close>

theorem serverClient_empty_key_counterexample:
  "load_serverClient (Some []) (Some ''secret'') =
     Inl (JsError ''Error''
       (Some ''Missing Required Environment Variables For STREAAM_API_KEY and STREAM_API_SECRET''))"
  by (simp add: load_serverClient_def truthy_def)

text \<open>
  C10 (amended): the module throws while loading exactly when the API key or the API
  secret is absent or empty; when both are non-empty strings it exports them together
  with a client constructed from the two.
\<close>

theorem serverClient_load:
  "load_serverClient k s =
     (if k = None \<or> k = Some [] \<or> s = None \<or> s = Some []
      then Inl (JsError ''Error''
        (Some ''Missing Required Environment Variables For STREAAM_API_KEY and STREAM_API_SECRET''))
      else Inr \<lparr> apiKey = the k, apiSecret = the s,
                 serverClient = StreamChat (the k) (the s) \<rparr>)"
  by (cases k; cases s) (auto simp: load_serverClient_def truthy_def)

theorem serverClient_load_witness:
  "load_serverClient (Some ''key'') (Some ''secret'') =
     Inr \<lparr> apiKey = ''key'', apiSecret = ''secret'', serverClient = StreamChat ''key'' ''secret'' \<rparr>
   \<and> isl (load_serverClient None (Some ''secret''))
   \<and> isl (load_serverClient (Some ''key'') (Some []))"
  using serverClient_load [of "Some ''key''" "Some ''secret''"]
        serverClient_load [of None "Some ''secret''"]
        serverClient_load [of "Some ''key''" "Some []"]
  by simp

section \<open>Properties of the stop handlers and of dispose\<close>

lemma abort_all_fields:
  "activeStreamControllers (abort_all s) = []"
  "signal_aborted (abort_all s) c = (c \<in> set (activeStreamControllers s) \<or> signal_aborted s c)"
  "trace (abort_all s) = trace s"
  "conversationHistory (abort_all s) = conversationHistory s"
  "openai (abort_all s) = openai s"
  "fresh (abort_all s) = fresh s"
  by (simp_all add: abort_all_def)

lemma abort_all_idem: "abort_all (abort_all s) = abort_all s"
  by (simp add: abort_all_def)

lemma emit_fields:
  "trace (emit e s) = trace s @ [e]"
  "activeStreamControllers (emit e s) = activeStreamControllers s"
  "signal_aborted (emit e s) = signal_aborted s"
  "conversationHistory (emit e s) = conversationHistory s"
  "openai (emit e s) = openai s"
  "fresh (emit e s) = fresh s"
  by (simp_all add: emit_def)

text \<open>
  C2 (as stated) fails on the agent: it keeps no message identity with its controllers,
  and its guard only tests that the event carries a message id. A generation runs for
  message m1; a stop event for message m2 arrives after the first chunk. The handler
  aborts the generation of m1 (the loop breaks at the next chunk, whose text is lost)
  and emits a clear for m2.
\<close>

theorem stop_other_message_counterexample:
  "map_option trace
     (processMessageWithGemini example_world
        [\<lparr> create_result = Inr
             [Chunk (text_chunk ''Hel'') 1700000000000,
              StopArrives \<lparr> ev_cid = Some ''c1'', ev_message_id = Some ''m2'' \<rparr>,
              Chunk (text_chunk ''lo'') 1700000000100],
            search_envs = no_search \<rparr>]
        \<lparr> msg_cid = ''c1'', msg_id = ''m1'' \<rparr>
        ((new_agent 0)\<lparr> openai := Some ''key'' \<rparr>))
   = Some [IndicatorUpdate AI_STATE_GENERATING (Some ''c1'') (Some ''m1''),
           PartialUpdateMessage ''m1'' ''Hel'',
           IndicatorClear (Some ''c1'') (Some ''m2''),
           PartialUpdateMessage ''m1'' ''Hel'',
           IndicatorClear (Some ''c1'') (Some ''m1'')]"
  by (simp add: new_agent_def register_controller_def emit_def handleStopGenerating_def
      abort_all_def truthy_def chunk_content_def chunk_delta_def chunk_tool_calls_def
      chunk_finish_reason_def retire_def push_turns_def Let_def text_chunk_def)

text \<open>
  C2 (amended). The agent ignores a stop event that carries no (or an empty) message id
  or that arrives when no generation is active; every other stop event, whatever its
  message id, aborts every active generation, empties the active list and emits exactly
  one clear carrying the cid and the message id of the event. The response handler
  ignores a stop event when it is done, when the message id is not its own, or when no
  run id has been recorded; otherwise it cancels the run, emits exactly one clear for
  its own message and disposes itself.
\<close>

theorem handleStopGenerating_cases:
  "(\<not> truthy (ev_message_id event) \<or> activeStreamControllers s = []
      \<longrightarrow> handleStopGenerating event s = s) \<and>
   (truthy (ev_message_id event) \<and> activeStreamControllers s \<noteq> []
      \<longrightarrow> (\<forall>c \<in> set (activeStreamControllers s). signal_aborted (handleStopGenerating event s) c) \<and>
          activeStreamControllers (handleStopGenerating event s) = [] \<and>
          trace (handleStopGenerating event s) =
            trace s @ [IndicatorClear (ev_cid event) (ev_message_id event)] \<and>
          conversationHistory (handleStopGenerating event s) = conversationHistory s) \<and>
   (is_done h \<or> ev_message_id event \<noteq> Some (msg_id (h_message h)) \<or> run_id h = []
      \<longrightarrow> handler_handleStopGenerating event h = h) \<and>
   (\<not> is_done h \<and> ev_message_id event = Some (msg_id (h_message h)) \<and> run_id h \<noteq> []
      \<longrightarrow> is_done (handler_handleStopGenerating event h) \<and>
          h_trace (handler_handleStopGenerating event h) =
            h_trace h @ [RunsCancel (run_id h) (h_thread_id h),
                         IndicatorClear (Some (msg_cid (h_message h))) (Some (msg_id (h_message h))),
                         ChatOff ''ai_indicator.stop'', OnDispose])"
  by (simp add: handleStopGenerating_def handler_handleStopGenerating_def handler_dispose_def
      h_emit_def emit_fields abort_all_fields)

theorem handleStopGenerating_cases_witness:
  "handleStopGenerating \<lparr> ev_cid = Some ''c1'', ev_message_id = None \<rparr>
       ((new_agent 0)\<lparr> activeStreamControllers := [0] \<rparr>)
     = (new_agent 0)\<lparr> activeStreamControllers := [0] \<rparr> \<and>
   trace (handleStopGenerating \<lparr> ev_cid = Some ''c1'', ev_message_id = Some ''m2'' \<rparr>
       ((new_agent 0)\<lparr> activeStreamControllers := [0] \<rparr>))
     = [IndicatorClear (Some ''c1'') (Some ''m2'')] \<and>
   handler_handleStopGenerating \<lparr> ev_cid = Some ''c1'', ev_message_id = Some ''m2'' \<rparr>
       ((new_handler ''t1'' \<lparr> msg_cid = ''c1'', msg_id = ''m1'' \<rparr>)\<lparr> run_id := ''r1'' \<rparr>)
     = (new_handler ''t1'' \<lparr> msg_cid = ''c1'', msg_id = ''m1'' \<rparr>)\<lparr> run_id := ''r1'' \<rparr> \<and>
   h_trace (handler_handleStopGenerating \<lparr> ev_cid = Some ''c1'', ev_message_id = Some ''m1'' \<rparr>
       ((new_handler ''t1'' \<lparr> msg_cid = ''c1'', msg_id = ''m1'' \<rparr>)\<lparr> run_id := ''r1'' \<rparr>))
     = [ChatOn ''ai_indicator.stop'', RunsCancel ''r1'' ''t1'',
        IndicatorClear (Some ''c1'') (Some ''m1''), ChatOff ''ai_indicator.stop'', OnDispose]"
  using handleStopGenerating_cases
          [of "\<lparr> ev_cid = Some ''c1'', ev_message_id = None \<rparr>"
              "(new_agent 0)\<lparr> activeStreamControllers := [0] \<rparr>"
              "new_handler ''t1'' \<lparr> msg_cid = ''c1'', msg_id = ''m1'' \<rparr>"]
        handleStopGenerating_cases
          [of "\<lparr> ev_cid = Some ''c1'', ev_message_id = Some ''m2'' \<rparr>"
              "(new_agent 0)\<lparr> activeStreamControllers := [0] \<rparr>"
              "(new_handler ''t1'' \<lparr> msg_cid = ''c1'', msg_id = ''m1'' \<rparr>)\<lparr> run_id := ''r1'' \<rparr>"]
        handleStopGenerating_cases
          [of "\<lparr> ev_cid = Some ''c1'', ev_message_id = Some ''m1'' \<rparr>"
              "(new_agent 0)\<lparr> activeStreamControllers := [0] \<rparr>"
              "(new_handler ''t1'' \<lparr> msg_cid = ''c1'', msg_id = ''m1'' \<rparr>)\<lparr> run_id := ''r1'' \<rparr>"]
  by (simp add: truthy_def new_agent_def new_handler_def)

text \<open>
  C9. A second call of the stop handler with the same event, right after the first,
  leaves the state (and with it the emitted events) as the first call left it, in the
  agent and in the response handler. A second \<open>dispose\<close> of the response handler changes
  nothing; a second \<open>dispose\<close> of the agent repeats its calls of the chat client but emits
  no indicator event, and leaves the controllers as they were. None of the four has a
  raising statement of its own: each is a total function of the state.
\<close>

theorem stop_and_dispose_twice:
  "handleStopGenerating event (handleStopGenerating event s) = handleStopGenerating event s \<and>
   handler_handleStopGenerating event (handler_handleStopGenerating event h)
     = handler_handleStopGenerating event h \<and>
   filter is_indicator (trace (dispose (dispose s))) = filter is_indicator (trace (dispose s)) \<and>
   filter is_indicator (trace (dispose s)) = filter is_indicator (trace s) \<and>
   activeStreamControllers (dispose (dispose s)) = activeStreamControllers (dispose s) \<and>
   signal_aborted (dispose (dispose s)) = signal_aborted (dispose s) \<and>
   handler_dispose (handler_dispose h) = handler_dispose h"
  by (simp add: handleStopGenerating_def handler_handleStopGenerating_def handler_dispose_def
      h_emit_def dispose_def emit_fields abort_all_fields fun_eq_iff)

theorem stop_and_dispose_twice_witness:
  "trace (handleStopGenerating \<lparr> ev_cid = Some ''c1'', ev_message_id = Some ''m1'' \<rparr>
            (handleStopGenerating \<lparr> ev_cid = Some ''c1'', ev_message_id = Some ''m1'' \<rparr>
               ((new_agent 0)\<lparr> activeStreamControllers := [0] \<rparr>)))
     = [IndicatorClear (Some ''c1'') (Some ''m1'')] \<and>
   filter is_indicator (trace (dispose (dispose ((new_agent 0)\<lparr> activeStreamControllers := [0] \<rparr>)))) = []"
  using stop_and_dispose_twice
          [of "\<lparr> ev_cid = Some ''c1'', ev_message_id = Some ''m1'' \<rparr>"
              "(new_agent 0)\<lparr> activeStreamControllers := [0] \<rparr>"
              "new_handler ''t1'' \<lparr> msg_cid = ''c1'', msg_id = ''m1'' \<rparr>"]
  by (simp add: handleStopGenerating_def dispose_def abort_all_def emit_def truthy_def new_agent_def)

section \<open>Evaluation of the concrete runs\<close>

lemma ready_agent_eq:
  "ready_agent =
     \<lparr> openai = Some ''gemini-key'',
       conversationHistory = [SystemTurn (getWritingAssistantPrompt ''November 3, 2026'' None)],
       lastInteractionTs = 1700000000000, activeStreamControllers = [],
       signal_aborted = (\<lambda>_. False), fresh = 0,
       trace = [ChatOn ''message.new'', ChatOn ''ai_indicator.stop''] \<rparr>"
  by (simp add: ready_agent_def init_def new_agent_def truthy_def emit_def)

lemmas run_defs =
  register_controller_def emit_def handleStopGenerating_def abort_all_def truthy_def
  chunk_content_def chunk_delta_def chunk_tool_calls_def chunk_finish_reason_def retire_def
  push_turns_def Let_def text_chunk_def catch_error_def handleStreamError_def

section \<open>Properties of performWebSearch\<close>

text \<open>
  \<open>performWebSearch\<close> of the agent always returns a serialized JSON value: the error object
  of the missing key, without a network call; the error object with details of a
  non-success response; the payload of a success response; and the error object of an
  exception for every throw of \<open>fetch\<close> and of the body readers.
\<close>

lemma performWebSearch_agent_result:
  "fst (performWebSearch w env q) =
     JSON_stringify w
       (if \<not> truthy (TAVILY_API_KEY env) then no_key_payload
        else case fetch_result env of
               Inl err \<Rightarrow> exception_payload
             | Inr r \<Rightarrow>
                 if \<not> resp_ok r
                 then (case resp_text r of Inl err \<Rightarrow> exception_payload
                                          | Inr t \<Rightarrow> failed_payload (resp_status r) t)
                 else (case resp_json r of Inl err \<Rightarrow> exception_payload | Inr d \<Rightarrow> d))"
  by (simp add: performWebSearch_def Let_def split: sum.splits)

lemma performWebSearch_agent_calls:
  "snd (performWebSearch w env q) =
     (if \<not> truthy (TAVILY_API_KEY env) then []
      else [search_call w (the (TAVILY_API_KEY env)) q])"
  by (simp add: performWebSearch_def Let_def split: sum.splits)

text \<open>
  C4 holds for \<open>performWebSearch\<close> of OpenAIAgent.ts (the two lemmas above) and fails for
  the copy in OpenAIResponseHandler.ts, whose guard is \<open>if (response.ok)\<close>: on a
  successful response (status 200) it returns the error object of a failed search, with
  the body as details, where the agent returns the payload.
\<close>

theorem handler_performWebSearch_success_is_error:
  "fst (handler_performWebSearch example_world
          \<lparr> TAVILY_API_KEY = Some ''tvly-key'',
            fetch_result = Inr \<lparr> resp_ok = True, resp_status = 200,
                                  resp_text = Inr (json_text (JObject [(''answer'', JString ''42'')])),
                                  resp_json = Inr (JObject [(''answer'', JString ''42'')]) \<rparr> \<rparr>
          (Some (JString ''isabelle'')))
     = json_text (JObject [(''error'', JString ''Search Failed with Status Code: 200''),
                           (''details'', JString (json_text (JObject [(''answer'', JString ''42'')])))]) \<and>
   fst (performWebSearch example_world
          \<lparr> TAVILY_API_KEY = Some ''tvly-key'',
            fetch_result = Inr \<lparr> resp_ok = True, resp_status = 200,
                                  resp_text = Inr (json_text (JObject [(''answer'', JString ''42'')])),
                                  resp_json = Inr (JObject [(''answer'', JString ''42'')]) \<rparr> \<rparr>
          (Some (JString ''isabelle'')))
     = json_text (JObject [(''answer'', JString ''42'')])"
  by (simp add: handler_performWebSearch_def performWebSearch_def truthy_def example_world_def
      failed_payload_def digit_char_def Let_def)

section \<open>Reassembly of tool calls\<close>

lemma slot_at_assign:
  "slot_at (assign_slot p i v) j = (if j = i then Some v else slot_at p j)"
  by (auto simp: slot_at_def assign_slot_def nth_append nth_Cons')

lemma slot_at_update:
  "slot_at (update_slot p i f) j = (if j = i then map_option f (slot_at p i) else slot_at p j)"
  by (auto simp: slot_at_def update_slot_def split: option.splits)

lemma truthy_piece:
  "(if truthy v then the v else []) = (case v of None \<Rightarrow> [] | Some x \<Rightarrow> x)"
  by (cases v) (auto simp: truthy_def)

lemma slot_at_merge:
  "slot_at (mergeToolCall p d) j =
     (if j = tcd_index d
      then Some (case slot_at p j of
                   None \<Rightarrow> \<lparr> tc_id = tcd_id d, tc_type = tcd_type d,
                             tc_name = name_piece d, tc_arguments = arguments_piece d \<rparr>
                 | Some slot \<Rightarrow> slot\<lparr> tc_name := tc_name slot @ name_piece d,
                                     tc_arguments := tc_arguments slot @ arguments_piece d \<rparr>)
      else slot_at p j)"
  by (cases "delta_name d"; cases "delta_arguments d")
     (auto simp: mergeToolCall_def Let_def slot_at_assign slot_at_update name_piece_def
        arguments_piece_def truthy_def split: option.splits)

lemma slot_at_foldl_merge:
  "slot_at (foldl mergeToolCall p ds) i =
     (case slot_at p i of
        Some slot \<Rightarrow>
          Some (slot\<lparr> tc_name := tc_name slot @ concat (map name_piece (filter (\<lambda>d. tcd_index d = i) ds)),
                      tc_arguments := tc_arguments slot @
                        concat (map arguments_piece (filter (\<lambda>d. tcd_index d = i) ds)) \<rparr>)
      | None \<Rightarrow>
          (case filter (\<lambda>d. tcd_index d = i) ds of
             [] \<Rightarrow> None
           | d # _ \<Rightarrow>
               Some \<lparr> tc_id = tcd_id d, tc_type = tcd_type d,
                      tc_name = concat (map name_piece (filter (\<lambda>d. tcd_index d = i) ds)),
                      tc_arguments = concat (map arguments_piece (filter (\<lambda>d. tcd_index d = i) ds)) \<rparr>))"
proof (induction ds arbitrary: p)
  case Nil
  then show ?case by (simp split: option.splits)
next
  case (Cons d ds)
  show ?case
  proof (cases "tcd_index d = i")
    case True
    then show ?thesis
      by (cases "slot_at p i") (simp_all add: Cons.IH slot_at_merge)
  next
    case False
    then show ?thesis
      by (cases "slot_at p i") (simp_all add: Cons.IH slot_at_merge cong: list.case_cong)
  qed
qed

lemma stream_fragments_Cons:
  "stream_fragments (x # xs) = item_fragments x @ stream_fragments xs"
  by (simp add: stream_fragments_def)

text \<open>The loop on a chunk, with the parts of the turn named.\<close>

lemma for_await_Chunk:
  "for_await controller m (Chunk c now # rest) mt lastUpdateTime pend s =
     (if signal_aborted s controller then (LoopEnded mt, s)
      else if chunk_finish_reason c = Some ''tool_calls'' \<and> step_pending pend c \<noteq> []
           then (ToolCallsRequested (step_pending pend c), step_state m c now mt lastUpdateTime s)
           else for_await controller m rest (mt @ delta_text c) (step_time c now lastUpdateTime)
                  (step_pending pend c) (step_state m c now mt lastUpdateTime s))"
proof -
  have a: "truthy (chunk_content c) \<Longrightarrow> the (chunk_content c) = delta_text c"
    by (cases "chunk_content c") (auto simp: delta_text_def truthy_def)
  have a': "\<not> truthy (chunk_content c) \<Longrightarrow> delta_text c = []"
    by (cases "chunk_content c") (auto simp: delta_text_def truthy_def)
  have b: "(case chunk_tool_calls c of None \<Rightarrow> pend | Some tcs \<Rightarrow> foldl mergeToolCall pend tcs)
             = step_pending pend c"
    by (simp add: step_pending_def chunk_fragments_def split: option.splits)
  show ?thesis
    by (cases "truthy (chunk_content c)")
       (simp_all add: Let_def a a' b step_state_def step_time_def step_flush_def)
qed

declare for_await.simps(4) [simp del]

lemma for_await_pending:
  "for_await controller m items mt lastUpdateTime pend s = (ToolCallsRequested p, s') \<Longrightarrow>
   \<exists>k \<le> length items. p = foldl mergeToolCall pend (stream_fragments (take k items))"
proof (induction items arbitrary: mt lastUpdateTime pend s)
  case Nil
  then show ?case by simp
next
  case (Cons item rest)
  show ?case
  proof (cases item)
    case (Chunk c now)
    show ?thesis
    proof (cases "chunk_finish_reason c = Some ''tool_calls'' \<and> step_pending pend c \<noteq> []")
      case True
      with Cons.prems Chunk have "p = step_pending pend c"
        by (simp add: for_await_Chunk split: if_splits)
      then show ?thesis
        using Chunk
        by (intro exI [of _ "Suc 0"]) (simp add: stream_fragments_def step_pending_def)
    next
      case False
      with Cons.prems Chunk
      have "for_await controller m rest (mt @ delta_text c) (step_time c now lastUpdateTime)
              (step_pending pend c) (step_state m c now mt lastUpdateTime s)
            = (ToolCallsRequested p, s')"
        by (simp add: for_await_Chunk split: if_splits)
      from Cons.IH [OF this] obtain k where "k \<le> length rest"
        "p = foldl mergeToolCall (step_pending pend c) (stream_fragments (take k rest))"
        by auto
      then show ?thesis
        using Chunk
        by (intro exI [of _ "Suc k"]) (simp add: stream_fragments_Cons step_pending_def)
    qed
  next
    case (StreamThrows e)
    with Cons.prems show ?thesis by simp
  next
    case (StopArrives ev)
    with Cons.prems
    have "for_await controller m rest mt lastUpdateTime pend (handleStopGenerating ev s)
            = (ToolCallsRequested p, s')"
      by simp
    from Cons.IH [OF this] obtain k where "k \<le> length rest"
      "p = foldl mergeToolCall pend (stream_fragments (take k rest))"
      by auto
    then show ?thesis
      using StopArrives
      by (intro exI [of _ "Suc k"]) (simp add: stream_fragments_Cons)
  qed
qed

text \<open>
  C6. After the tool-call fragments \<open>ds\<close> have been merged into the empty list of
  pending calls, in their order of arrival and with any interleaving of indices, the slot
  of an index that no fragment names is undefined, and the slot of every other index
  carries the id and type of the first fragment of that index (which creates the slot
  with empty name and arguments) and, as name and as arguments, the concatenation of the
  name pieces and of the argument pieces of the fragments of that index in arrival order.
  The calls that the loop hands over are such a merge of the fragments of the chunks it
  has consumed (lemma \<open>for_await_pending\<close>).
\<close>

theorem tool_call_reassembly:
  "slot_at (foldl mergeToolCall [] ds) i =
     (case filter (\<lambda>d. tcd_index d = i) ds of
        [] \<Rightarrow> None
      | d # _ \<Rightarrow>
          Some \<lparr> tc_id = tcd_id d, tc_type = tcd_type d,
                 tc_name = concat (map name_piece (filter (\<lambda>d. tcd_index d = i) ds)),
                 tc_arguments = concat (map arguments_piece (filter (\<lambda>d. tcd_index d = i) ds)) \<rparr>)"
proof -
  have "slot_at [] i = None"
    by (simp add: slot_at_def)
  then show ?thesis
    by (simp add: slot_at_foldl_merge)
qed

theorem tool_call_reassembly_witness:
  "slot_at (foldl mergeToolCall []
      [tool_delta 0 (Some ''call_a'') (Some ''web_'') (Some (''{'' @ dq @ ''que'')),
       tool_delta 1 (Some ''call_b'') (Some ''web_search'') None,
       tool_delta 0 None (Some ''search'') (Some (''ry'' @ dq @ '':'' @ dq @ ''isa'')),
       tool_delta 1 None None (Some ''{}''),
       tool_delta 0 None None (Some (''belle'' @ dq @ ''}''))]) 0
     = Some \<lparr> tc_id = Some ''call_a'', tc_type = Some ''function'', tc_name = ''web_search'',
              tc_arguments = ''{'' @ dq @ ''query'' @ dq @ '':'' @ dq @ ''isabelle'' @ dq @ ''}'' \<rparr> \<and>
   slot_at (foldl mergeToolCall []
      [tool_delta 0 (Some ''call_a'') (Some ''web_'') (Some (''{'' @ dq @ ''que'')),
       tool_delta 1 (Some ''call_b'') (Some ''web_search'') None,
       tool_delta 0 None (Some ''search'') (Some (''ry'' @ dq @ '':'' @ dq @ ''isa'')),
       tool_delta 1 None None (Some ''{}''),
       tool_delta 0 None None (Some (''belle'' @ dq @ ''}''))]) 1
     = Some \<lparr> tc_id = Some ''call_b'', tc_type = Some ''function'', tc_name = ''web_search'',
              tc_arguments = ''{}'' \<rparr> \<and>
   slot_at (foldl mergeToolCall []
      [tool_delta 0 (Some ''call_a'') (Some ''web_'') (Some (''{'' @ dq @ ''que'')),
       tool_delta 1 (Some ''call_b'') (Some ''web_search'') None,
       tool_delta 0 None (Some ''search'') (Some (''ry'' @ dq @ '':'' @ dq @ ''isa'')),
       tool_delta 1 None None (Some ''{}''),
       tool_delta 0 None None (Some (''belle'' @ dq @ ''}''))]) 2
     = None"
  using tool_call_reassembly
          [of "[tool_delta 0 (Some ''call_a'') (Some ''web_'') (Some (''{'' @ dq @ ''que'')),
                tool_delta 1 (Some ''call_b'') (Some ''web_search'') None,
                tool_delta 0 None (Some ''search'') (Some (''ry'' @ dq @ '':'' @ dq @ ''isa'')),
                tool_delta 1 None None (Some ''{}''),
                tool_delta 0 None None (Some (''belle'' @ dq @ ''}''))]" 0]
        tool_call_reassembly
          [of "[tool_delta 0 (Some ''call_a'') (Some ''web_'') (Some (''{'' @ dq @ ''que'')),
                tool_delta 1 (Some ''call_b'') (Some ''web_search'') None,
                tool_delta 0 None (Some ''search'') (Some (''ry'' @ dq @ '':'' @ dq @ ''isa'')),
                tool_delta 1 None None (Some ''{}''),
                tool_delta 0 None None (Some (''belle'' @ dq @ ''}''))]" 1]
        tool_call_reassembly
          [of "[tool_delta 0 (Some ''call_a'') (Some ''web_'') (Some (''{'' @ dq @ ''que'')),
                tool_delta 1 (Some ''call_b'') (Some ''web_search'') None,
                tool_delta 0 None (Some ''search'') (Some (''ry'' @ dq @ '':'' @ dq @ ''isa'')),
                tool_delta 1 None None (Some ''{}''),
                tool_delta 0 None None (Some (''belle'' @ dq @ ''}''))]" 2]
  by (simp add: tool_delta_def name_piece_def arguments_piece_def delta_name_def
      delta_arguments_def)

section \<open>The response handler's stream events\<close>

lemma handleStreamEvent_delta:
  "is_delta_event e \<Longrightarrow>
   \<exists>h'. handleStreamEvent e h = Inr h' \<and>
        message_text h' = message_text h @ event_text e \<and>
        h_message h' = h_message h \<and>
        (h_flush_count h' = h_flush_count h \<and> last_update_time h' = last_update_time h \<or>
         h_flush_count h' = Suc (h_flush_count h) \<and>
           (\<exists>now. now \<in> set (event_times [e]) \<and> last_update_time h + 1000 < now \<and>
                  last_update_time h' = now) \<and>
           h_trace h' = h_trace h @ [PartialUpdateMessage (msg_id (h_message h)) (message_text h')])"
proof (cases e)
  case (ThreadMessageDelta d now)
  show ?thesis
  proof (cases d)
    case None
    with ThreadMessageDelta show ?thesis by simp
  next
    case (Some td)
    show ?thesis
    proof (cases td)
      case OtherDelta
      with ThreadMessageDelta Some show ?thesis by simp
    next
      case (TextDelta t)
      show ?thesis
      proof (cases t)
        case None
        with ThreadMessageDelta Some TextDelta show ?thesis by simp
      next
        case inner: (Some v)
        have tv: "(if truthy v then the v else []) = event_text e"
          using ThreadMessageDelta Some TextDelta inner
          by (cases v) (auto simp: truthy_def)
        show ?thesis
          using ThreadMessageDelta Some TextDelta inner tv
          by (cases v) (auto simp: Let_def h_emit_def h_flush_count_def truthy_def)
      qed
    qed
  qed
qed simp_all

text \<open>
  After a run of message deltas the handler's \<open>message_text\<close> is the text it had followed
  by the deltas' values in arrival order, and a completed message whose first content
  part is not text is written with exactly that text; when the first part is text, the
  handler writes the value the completed event carries.
\<close>

lemma handler_text_accumulates:
  "list_all is_delta_event es \<Longrightarrow>
   \<exists>h'. handleStreamEvents es h = Inr h' \<and> h_message h' = h_message h \<and>
        message_text h' = message_text h @ concat (map event_text es)"
proof (induction es arbitrary: h)
  case Nil
  then show ?case by simp
next
  case (Cons e es)
  then have "is_delta_event e" and rest: "list_all is_delta_event es"
    by simp_all
  from handleStreamEvent_delta [OF this(1), of h]
  obtain h1 where 1: "handleStreamEvent e h = Inr h1" "message_text h1 = message_text h @ event_text e"
    "h_message h1 = h_message h"
    by blast
  from Cons.IH [OF rest, of h1]
  obtain h' where 2: "handleStreamEvents es h1 = Inr h'" "h_message h' = h_message h1"
    "message_text h' = message_text h1 @ concat (map event_text es)"
    by blast
  from 1 2 show ?case
    by simp
qed

lemma handleStreamEvents_append:
  "handleStreamEvents (es @ fs) h =
     (case handleStreamEvents es h of Inl err \<Rightarrow> Inl err | Inr h' \<Rightarrow> handleStreamEvents fs h')"
  by (induction es arbitrary: h) (simp_all split: sum.splits)

lemma handler_completed_write:
  "handleStreamEvent (ThreadMessageCompleted (Some c)) h = Inr h' \<Longrightarrow>
   h_trace h' = h_trace h @
     [PartialUpdateMessage (msg_id (h_message h))
        (case c of CompletedText v \<Rightarrow> v | CompletedOther \<Rightarrow> message_text h),
      IndicatorClear (Some (msg_cid (h_message h))) (Some (msg_id (h_message h)))]"
  by (auto simp: h_emit_def)

text \<open>The handler's throttle is the agent's: writes are more than 1000 ms apart.\<close>

lemma handler_flush_gap:
  "list_all is_delta_event es \<Longrightarrow> \<forall>t \<in> set (event_times es). t \<le> finish \<Longrightarrow>
   handleStreamEvents es h = Inr h' \<Longrightarrow>
   h_flush_count h \<le> h_flush_count h' \<and>
   (h_flush_count h < h_flush_count h' \<longrightarrow>
      last_update_time h + 1000 * (int (h_flush_count h') - int (h_flush_count h)) < finish)"
proof (induction es arbitrary: h)
  case Nil
  then show ?case by simp
next
  case (Cons e es)
  then have d: "is_delta_event e" and rest: "list_all is_delta_event es"
    by simp_all
  from d obtain dd now where e: "e = ThreadMessageDelta dd now"
    by (cases e) auto
  with Cons.prems(2) have now: "now \<le> finish" and up: "\<forall>t \<in> set (event_times es). t \<le> finish"
    by simp_all
  from handleStreamEvent_delta [OF d, of h]
  obtain h1 where 1: "handleStreamEvent e h = Inr h1"
    and c: "h_flush_count h1 = h_flush_count h \<and> last_update_time h1 = last_update_time h \<or>
            h_flush_count h1 = Suc (h_flush_count h) \<and>
              (\<exists>t. t \<in> set (event_times [e]) \<and> last_update_time h + 1000 < t \<and> last_update_time h1 = t)"
    by blast
  from Cons.prems(3) 1 have run: "handleStreamEvents es h1 = Inr h'"
    by simp
  from Cons.IH [OF rest up run]
  have ih: "h_flush_count h1 \<le> h_flush_count h'"
    "h_flush_count h1 < h_flush_count h' \<longrightarrow>
       last_update_time h1 + 1000 * (int (h_flush_count h') - int (h_flush_count h1)) < finish"
    by simp_all
  from c show ?case
  proof
    assume "h_flush_count h1 = h_flush_count h \<and> last_update_time h1 = last_update_time h"
    with ih show ?thesis by simp
  next
    assume f: "h_flush_count h1 = Suc (h_flush_count h) \<and>
              (\<exists>t. t \<in> set (event_times [e]) \<and> last_update_time h + 1000 < t \<and> last_update_time h1 = t)"
    then have lu: "last_update_time h + 1000 < now" "last_update_time h1 = now"
      using e by simp_all
    with f ih now show ?thesis
      by (cases "h_flush_count h1 < h_flush_count h'") auto
  qed
qed

lemma handler_flush_span:
  "list_all is_delta_event es \<Longrightarrow> \<forall>t \<in> set (event_times es). start \<le> t \<and> t \<le> finish \<Longrightarrow>
   handleStreamEvents es h = Inr h' \<Longrightarrow>
   2 \<le> int (h_flush_count h') - int (h_flush_count h) \<Longrightarrow>
   start + 1000 * (int (h_flush_count h') - int (h_flush_count h) - 1) < finish"
proof (induction es arbitrary: h)
  case Nil
  then show ?case by simp
next
  case (Cons e es)
  then have d: "is_delta_event e" and rest: "list_all is_delta_event es"
    by simp_all
  from d obtain dd now where e: "e = ThreadMessageDelta dd now"
    by (cases e) auto
  with Cons.prems(2) have now: "start \<le> now" "now \<le> finish"
    and bounds: "\<forall>t \<in> set (event_times es). start \<le> t \<and> t \<le> finish"
    by simp_all
  then have up: "\<forall>t \<in> set (event_times es). t \<le> finish"
    by simp
  from handleStreamEvent_delta [OF d, of h]
  obtain h1 where 1: "handleStreamEvent e h = Inr h1"
    and c: "h_flush_count h1 = h_flush_count h \<and> last_update_time h1 = last_update_time h \<or>
            h_flush_count h1 = Suc (h_flush_count h) \<and>
              (\<exists>t. t \<in> set (event_times [e]) \<and> last_update_time h + 1000 < t \<and> last_update_time h1 = t)"
    by blast
  from Cons.prems(3) 1 have run: "handleStreamEvents es h1 = Inr h'"
    by simp
  from c show ?case
  proof
    assume same: "h_flush_count h1 = h_flush_count h \<and> last_update_time h1 = last_update_time h"
    with Cons.prems(4) have "2 \<le> int (h_flush_count h') - int (h_flush_count h1)"
      by simp
    from Cons.IH [OF rest bounds run this] same show ?thesis
      by simp
  next
    assume f: "h_flush_count h1 = Suc (h_flush_count h) \<and>
              (\<exists>t. t \<in> set (event_times [e]) \<and> last_update_time h + 1000 < t \<and> last_update_time h1 = t)"
    then have lu: "last_update_time h1 = now"
      using e by simp
    from handler_flush_gap [OF rest up run] lu
    have "h_flush_count h1 < h_flush_count h' \<longrightarrow>
            now + 1000 * (int (h_flush_count h') - int (h_flush_count h1)) < finish"
      by simp
    with f Cons.prems(4) now show ?thesis
      by auto
  qed
qed

section \<open>Streams of text deltas\<close>

lemma step_state_fields:
  "signal_aborted (step_state m c now mt lu s) = signal_aborted s"
  "activeStreamControllers (step_state m c now mt lu s) = activeStreamControllers s"
  "conversationHistory (step_state m c now mt lu s) = conversationHistory s"
  "openai (step_state m c now mt lu s) = openai s"
  "fresh (step_state m c now mt lu s) = fresh s"
  by (simp_all add: step_state_def emit_def)

lemma step_state_trace:
  "trace (step_state m c now mt lu s) =
     trace s @ (if step_flush c now lu then [PartialUpdateMessage (msg_id m) (mt @ delta_text c)] else [])"
  by (simp add: step_state_def emit_def)

lemma step_state_as_update:
  "step_state m c now mt lu s =
     s\<lparr> trace := trace s @
          (if step_flush c now lu then [PartialUpdateMessage (msg_id m) (mt @ delta_text c)] else []) \<rparr>"
  by (simp add: step_state_def emit_def)

lemma for_await_text_only:
  "list_all is_text_item items \<Longrightarrow> \<not> signal_aborted s controller \<Longrightarrow>
   \<exists>flushes. list_all is_flush flushes \<and>
     for_await controller m items mt lastUpdateTime [] s =
       (LoopEnded (mt @ concat (map item_text items)), s\<lparr> trace := trace s @ flushes \<rparr>)"
proof (induction items arbitrary: mt lastUpdateTime s)
  case Nil
  show ?case
    by (intro exI [of _ "[]"]) simp
next
  case (Cons item rest)
  from Cons.prems obtain c now where item: "item = Chunk c now" and nofrag: "chunk_fragments c = []"
    by (cases item) auto
  let ?s1 = "step_state m c now mt lastUpdateTime s"
  let ?f1 = "if step_flush c now lastUpdateTime
             then [PartialUpdateMessage (msg_id m) (mt @ delta_text c)] else []"
  have na: "\<not> signal_aborted ?s1 controller"
    using Cons.prems by (simp add: step_state_fields)
  from Cons.prems have "list_all is_text_item rest"
    by simp
  from Cons.IH [OF this na, of "mt @ delta_text c" "step_time c now lastUpdateTime"]
  obtain flushes where fl: "list_all is_flush flushes"
    and run: "for_await controller m rest (mt @ delta_text c) (step_time c now lastUpdateTime) [] ?s1 =
       (LoopEnded ((mt @ delta_text c) @ concat (map item_text rest)), ?s1\<lparr> trace := trace ?s1 @ flushes \<rparr>)"
    by blast
  have "for_await controller m (item # rest) mt lastUpdateTime [] s =
          (LoopEnded (mt @ concat (map item_text (item # rest))), s\<lparr> trace := trace s @ (?f1 @ flushes) \<rparr>)"
    using Cons.prems(2) run
    by (simp add: item for_await_Chunk step_pending_def nofrag step_state_as_update)
  moreover have "list_all is_flush (?f1 @ flushes)"
    using fl by simp
  ultimately show ?case
    by blast
qed

lemma register_controller_fields:
  "signal_aborted (register_controller s) (fresh s) = False"
  "openai (register_controller s) = openai s"
  "trace (register_controller s) = trace s"
  "conversationHistory (register_controller s) = conversationHistory s"
  "activeStreamControllers (register_controller s) = activeStreamControllers s @ [fresh s]"
  "fresh (register_controller s) = Suc (fresh s)"
  by (simp_all add: register_controller_def)

lemma generation_text_only:
  assumes "openai s \<noteq> None" and "create_result g = Inr items" and "list_all is_text_item items"
  shows "\<exists>flushes. list_all is_flush flushes \<and>
     processMessageWithGemini w (g # gens) m s =
       Some ((register_controller s)
         \<lparr> activeStreamControllers := filter (\<lambda>c. c \<noteq> fresh s) (activeStreamControllers s),
           conversationHistory :=
             conversationHistory s @ [AssistantTurn (concat (map item_text items))],
           trace := trace s @
             [IndicatorUpdate AI_STATE_GENERATING (Some (msg_cid m)) (Some (msg_id m))] @ flushes @
             [PartialUpdateMessage (msg_id m) (concat (map item_text items)),
              IndicatorClear (Some (msg_cid m)) (Some (msg_id m))] \<rparr>)"
proof -
  let ?s2 = "emit (IndicatorUpdate AI_STATE_GENERATING (Some (msg_cid m)) (Some (msg_id m)))
               (register_controller s)"
  have na: "\<not> signal_aborted ?s2 (fresh s)"
    by (simp add: emit_def register_controller_def)
  from for_await_text_only [OF assms(3) na, of m "[]" 0]
  obtain flushes where fl: "list_all is_flush flushes"
    and run: "for_await (fresh s) m items [] 0 [] ?s2 =
       (LoopEnded (concat (map item_text items)), ?s2\<lparr> trace := trace ?s2 @ flushes \<rparr>)"
    by auto
  have "processMessageWithGemini w (g # gens) m s =
       Some ((register_controller s)
         \<lparr> activeStreamControllers := filter (\<lambda>c. c \<noteq> fresh s) (activeStreamControllers s),
           conversationHistory :=
             conversationHistory s @ [AssistantTurn (concat (map item_text items))],
           trace := trace s @
             [IndicatorUpdate AI_STATE_GENERATING (Some (msg_cid m)) (Some (msg_id m))] @ flushes @
             [PartialUpdateMessage (msg_id m) (concat (map item_text items)),
              IndicatorClear (Some (msg_cid m)) (Some (msg_id m))] \<rparr>)"
  proof -
    have o: "(openai s = None) = False"
      using assms(1) by simp
    show ?thesis
      by (simp only: processMessageWithGemini.simps o if_False assms(2) sum.case run
            prod.case loop_exit.case)
         (simp add: retire_def emit_def push_turns_def register_controller_def)
  qed
  with fl show ?thesis
    by blast
qed

text \<open>
  C5 (as stated) fails for the response handler, which writes the message only in its
  throttle and on a \<open>thread.message.completed\<close> event: when the stream of deltas ends
  without that event, the last text written is the one of the last throttled write. Here
  the second delta comes 100 ms after the first, so the store keeps the first delta
  alone while the accumulated text is the concatenation.
\<close>

theorem handler_stream_end_counterexample:
  "map_sum id (\<lambda>h. (message_text h, h_trace h))
     (handleStreamEvents
        [ThreadMessageDelta (Some (TextDelta (Some (Some ''Hel'')))) 1700000000000,
         ThreadMessageDelta (Some (TextDelta (Some (Some ''lo'')))) 1700000000100]
        (new_handler ''t1'' \<lparr> msg_cid = ''c1'', msg_id = ''m1'' \<rparr>))
   = Inr (''Hello'', [ChatOn ''ai_indicator.stop'', PartialUpdateMessage ''m1'' ''Hel''])"
  by (simp add: new_handler_def h_emit_def truthy_def Let_def)

text \<open>
  C5 (amended). In the agent, when a generation's stream consists of chunks without
  tool-call fragments and ends, whatever the clock readings of the chunks (they decide
  the partial writes \<open>flushes\<close>), the last write to the message store is the concatenation
  of the text deltas in arrival order, the same text is appended to the conversation
  history as the assistant turn, and the clear indicator follows. In the response
  handler, the text accumulated over a run of message deltas is the concatenation of
  their values, whatever the clock readings; the final write is made by the completed
  event alone and carries that event's text, or the accumulated text when the first
  content part of the event is not text; the handler keeps no conversation history.
\<close>

theorem text_stream_final_text:
  "(openai s \<noteq> None \<and> create_result g = Inr items \<and> list_all is_text_item items
      \<longrightarrow> (\<exists>flushes. list_all is_flush flushes \<and>
            processMessageWithGemini w (g # gens) m s =
              Some ((register_controller s)
                \<lparr> activeStreamControllers := filter (\<lambda>c. c \<noteq> fresh s) (activeStreamControllers s),
                  conversationHistory :=
                    conversationHistory s @ [AssistantTurn (concat (map item_text items))],
                  trace := trace s @
                    [IndicatorUpdate AI_STATE_GENERATING (Some (msg_cid m)) (Some (msg_id m))] @
                    flushes @
                    [PartialUpdateMessage (msg_id m) (concat (map item_text items)),
                     IndicatorClear (Some (msg_cid m)) (Some (msg_id m))] \<rparr>))) \<and>
   (list_all is_delta_event es
      \<longrightarrow> (\<exists>h'. handleStreamEvents es h = Inr h' \<and>
            message_text h' = message_text h @ concat (map event_text es) \<and>
            handleStreamEvents (es @ [ThreadMessageCompleted (Some c)]) h =
              Inr (h'\<lparr> h_trace := h_trace h' @
                     [PartialUpdateMessage (msg_id (h_message h))
                        (case c of CompletedText v \<Rightarrow> v
                                 | CompletedOther \<Rightarrow> message_text h @ concat (map event_text es)),
                      IndicatorClear (Some (msg_cid (h_message h))) (Some (msg_id (h_message h)))] \<rparr>)))"
proof (intro conjI impI)
  assume "openai s \<noteq> None \<and> create_result g = Inr items \<and> list_all is_text_item items"
  then show "\<exists>flushes. list_all is_flush flushes \<and>
            processMessageWithGemini w (g # gens) m s =
              Some ((register_controller s)
                \<lparr> activeStreamControllers := filter (\<lambda>c. c \<noteq> fresh s) (activeStreamControllers s),
                  conversationHistory :=
                    conversationHistory s @ [AssistantTurn (concat (map item_text items))],
                  trace := trace s @
                    [IndicatorUpdate AI_STATE_GENERATING (Some (msg_cid m)) (Some (msg_id m))] @
                    flushes @
                    [PartialUpdateMessage (msg_id m) (concat (map item_text items)),
                     IndicatorClear (Some (msg_cid m)) (Some (msg_id m))] \<rparr>)"
    using generation_text_only [of s g items w gens m] by simp
next
  assume "list_all is_delta_event es"
  from handler_text_accumulates [OF this, of h]
  obtain h' where 1: "handleStreamEvents es h = Inr h'" and 2: "h_message h' = h_message h"
    and 3: "message_text h' = message_text h @ concat (map event_text es)"
    by blast
  have "handleStreamEvents (es @ [ThreadMessageCompleted (Some c)]) h =
          Inr (h'\<lparr> h_trace := h_trace h' @
                 [PartialUpdateMessage (msg_id (h_message h))
                    (case c of CompletedText v \<Rightarrow> v
                             | CompletedOther \<Rightarrow> message_text h @ concat (map event_text es)),
                  IndicatorClear (Some (msg_cid (h_message h))) (Some (msg_id (h_message h)))] \<rparr>)"
    by (cases c) (simp_all add: handleStreamEvents_append 1 2 3 h_emit_def)
  with 1 3 show "\<exists>h'. handleStreamEvents es h = Inr h' \<and>
            message_text h' = message_text h @ concat (map event_text es) \<and>
            handleStreamEvents (es @ [ThreadMessageCompleted (Some c)]) h =
              Inr (h'\<lparr> h_trace := h_trace h' @
                     [PartialUpdateMessage (msg_id (h_message h))
                        (case c of CompletedText v \<Rightarrow> v
                                 | CompletedOther \<Rightarrow> message_text h @ concat (map event_text es)),
                      IndicatorClear (Some (msg_cid (h_message h))) (Some (msg_id (h_message h)))] \<rparr>)"
    by blast
qed

theorem text_stream_final_text_witness:
  "map_option (\<lambda>s. (last (filter is_flush (trace s)), last (conversationHistory s), last (trace s)))
     (processMessageWithGemini example_world
        [\<lparr> create_result = Inr [Chunk (text_chunk ''Hel'') 1700000000000,
                                 Chunk (text_chunk ''lo, '') 1700000000100,
                                 Chunk (text_chunk ''world'') 1700000001500],
           search_envs = no_search \<rparr>]
        \<lparr> msg_cid = ''c1'', msg_id = ''m1'' \<rparr> ready_agent)
   = Some (PartialUpdateMessage ''m1'' ''Hello, world'', AssistantTurn ''Hello, world'',
           IndicatorClear (Some ''c1'') (Some ''m1'')) \<and>
   map_sum id (\<lambda>h. filter is_flush (h_trace h))
     (handleStreamEvents
        ([ThreadMessageDelta (Some (TextDelta (Some (Some ''Hel'')))) 1700000000000,
          ThreadMessageDelta (Some (TextDelta (Some (Some ''lo'')))) 1700000000100] @
         [ThreadMessageCompleted (Some CompletedOther)])
        (new_handler ''t1'' \<lparr> msg_cid = ''c1'', msg_id = ''m1'' \<rparr>))
   = Inr [PartialUpdateMessage ''m1'' ''Hel'', PartialUpdateMessage ''m1'' ''Hello'']"
proof -
  let ?items = "[Chunk (text_chunk ''Hel'') 1700000000000,
                 Chunk (text_chunk ''lo, '') 1700000000100,
                 Chunk (text_chunk ''world'') 1700000001500]"
  let ?g = "\<lparr> create_result = Inr ?items, search_envs = no_search \<rparr>"
  let ?m = "\<lparr> msg_cid = ''c1'', msg_id = ''m1'' \<rparr>"
  let ?es = "[ThreadMessageDelta (Some (TextDelta (Some (Some ''Hel'')))) 1700000000000,
              ThreadMessageDelta (Some (TextDelta (Some (Some ''lo'')))) 1700000000100]"
  let ?h = "new_handler ''t1'' ?m"
  note T = text_stream_final_text [where s = ready_agent and g = ?g and items = ?items
      and w = example_world and gens = "[]" and m = ?m and es = ?es and h = ?h and c = CompletedOther]
  have 1: "openai ready_agent \<noteq> None"
    by (simp add: ready_agent_eq)
  have 2: "create_result ?g = Inr ?items"
    by simp
  have 3: "list_all is_text_item ?items"
    by (simp add: text_chunk_def chunk_fragments_def chunk_tool_calls_def chunk_delta_def)
  have 4: "concat (map item_text ?items) = ''Hello, world''"
    by (simp add: text_chunk_def delta_text_def chunk_content_def chunk_delta_def)
  have a: "map_option (\<lambda>s. (last (filter is_flush (trace s)), last (conversationHistory s), last (trace s)))
             (processMessageWithGemini example_world [?g] ?m ready_agent)
           = Some (PartialUpdateMessage ''m1'' ''Hello, world'', AssistantTurn ''Hello, world'',
                   IndicatorClear (Some ''c1'') (Some ''m1''))"
    using T [THEN conjunct1, rule_format, OF conjI [OF 1 conjI [OF 2 3]]]
    unfolding 4 by (auto simp: register_controller_def ready_agent_eq)
  have 5: "list_all is_delta_event ?es"
    by simp
  from T [THEN conjunct2, rule_format, OF 5]
  obtain h' where r: "handleStreamEvents ?es ?h = Inr h'"
    and f: "handleStreamEvents (?es @ [ThreadMessageCompleted (Some CompletedOther)]) ?h =
              Inr (h'\<lparr> h_trace := h_trace h' @
                     [PartialUpdateMessage (msg_id (h_message ?h))
                        (case CompletedOther of CompletedText v \<Rightarrow> v
                                 | CompletedOther \<Rightarrow> message_text ?h @ concat (map event_text ?es)),
                      IndicatorClear (Some (msg_cid (h_message ?h))) (Some (msg_id (h_message ?h)))] \<rparr>)"
    by blast
  have tr: "h_trace h' = [ChatOn ''ai_indicator.stop'', PartialUpdateMessage ''m1'' ''Hel'']"
    using r by (auto simp: new_handler_def h_emit_def truthy_def Let_def)
  have b: "map_sum id (\<lambda>h. filter is_flush (h_trace h))
             (handleStreamEvents (?es @ [ThreadMessageCompleted (Some CompletedOther)]) ?h)
           = Inr [PartialUpdateMessage ''m1'' ''Hel'', PartialUpdateMessage ''m1'' ''Hello'']"
    unfolding f by (simp add: tr new_handler_def)
  from a b show ?thesis
    by simp
qed

section \<open>The throttle of the partial writes\<close>

lemma flush_count_stop [simp]:
  "flush_count (handleStopGenerating ev s) = flush_count s"
  by (simp add: flush_count_def handleStopGenerating_def emit_def abort_all_def)

lemma flush_count_step:
  "flush_count (step_state m c now mt lu s) = flush_count s + (if step_flush c now lu then 1 else 0)"
  by (simp add: flush_count_def step_state_trace)

text \<open>
  Every write of the loop comes more than 1000 ms after the previous one by the loop's own
  clock readings: \<open>k\<close> writes after a write at \<open>lu\<close> need a reading beyond \<open>lu + 1000 k\<close>.
\<close>

lemma for_await_flush_gap:
  "\<forall>t \<in> set (item_times items). t \<le> finish \<Longrightarrow>
   for_await controller m items mt lu pend s = (ex, s') \<Longrightarrow>
   flush_count s \<le> flush_count s' \<and>
   (flush_count s < flush_count s' \<longrightarrow>
      lu + 1000 * (int (flush_count s') - int (flush_count s)) < finish)"
proof (induction items arbitrary: mt lu pend s)
  case Nil
  then show ?case by simp
next
  case (Cons item rest)
  show ?case
  proof (cases item)
    case (StreamThrows e)
    with Cons.prems show ?thesis by simp
  next
    case (StopArrives ev)
    with Cons.prems
    have "for_await controller m rest mt lu pend (handleStopGenerating ev s) = (ex, s')"
      and "\<forall>t \<in> set (item_times rest). t \<le> finish"
      by simp_all
    from Cons.IH [OF this(2) this(1)] show ?thesis
      by simp
  next
    case (Chunk c now)
    with Cons.prems have now: "now \<le> finish" and rest: "\<forall>t \<in> set (item_times rest). t \<le> finish"
      by simp_all
    let ?s1 = "step_state m c now mt lu s"
    have fc1: "flush_count ?s1 = flush_count s + (if step_flush c now lu then 1 else 0)"
      by (rule flush_count_step)
    have gap: "step_flush c now lu \<Longrightarrow> lu + 1000 < now"
      by (simp add: step_flush_def)
    have tm: "step_time c now lu = (if step_flush c now lu then now else lu)"
      by (simp add: step_time_def)
    consider (aborted) "s' = s"
      | (handoff) "s' = ?s1"
      | (continue) "for_await controller m rest (mt @ delta_text c) (step_time c now lu)
                      (step_pending pend c) ?s1 = (ex, s')"
      using Cons.prems(2) Chunk by (auto simp: for_await_Chunk split: if_splits)
    then show ?thesis
    proof cases
      case aborted
      then show ?thesis by simp
    next
      case handoff
      then show ?thesis
        using fc1 gap now by (auto split: if_splits)
    next
      case continue
      from Cons.IH [OF rest continue]
      have ih: "flush_count ?s1 \<le> flush_count s'"
        "flush_count ?s1 < flush_count s' \<longrightarrow>
           step_time c now lu + 1000 * (int (flush_count s') - int (flush_count ?s1)) < finish"
        by simp_all
      show ?thesis
      proof (cases "step_flush c now lu")
        case True
        with fc1 ih gap tm now show ?thesis
          by (cases "flush_count ?s1 < flush_count s'") auto
      next
        case False
        with fc1 ih tm show ?thesis
          by auto
      qed
    qed
  qed
qed

lemma for_await_flush_span:
  "\<forall>t \<in> set (item_times items). start \<le> t \<and> t \<le> finish \<Longrightarrow>
   for_await controller m items mt lu pend s = (ex, s') \<Longrightarrow>
   2 \<le> int (flush_count s') - int (flush_count s) \<Longrightarrow>
   start + 1000 * (int (flush_count s') - int (flush_count s) - 1) < finish"
proof (induction items arbitrary: mt lu pend s)
  case Nil
  then show ?case by simp
next
  case (Cons item rest)
  show ?case
  proof (cases item)
    case (StreamThrows e)
    with Cons.prems show ?thesis by simp
  next
    case (StopArrives ev)
    with Cons.prems
    have "for_await controller m rest mt lu pend (handleStopGenerating ev s) = (ex, s')"
      and "\<forall>t \<in> set (item_times rest). start \<le> t \<and> t \<le> finish"
      and "2 \<le> int (flush_count s') - int (flush_count (handleStopGenerating ev s))"
      by simp_all
    from Cons.IH [OF this(2) this(1) this(3)] show ?thesis
      by simp
  next
    case (Chunk c now)
    with Cons.prems have now: "start \<le> now" "now \<le> finish"
      and rest: "\<forall>t \<in> set (item_times rest). start \<le> t \<and> t \<le> finish"
      by simp_all
    then have rest': "\<forall>t \<in> set (item_times rest). t \<le> finish"
      by simp
    let ?s1 = "step_state m c now mt lu s"
    have fc1: "flush_count ?s1 = flush_count s + (if step_flush c now lu then 1 else 0)"
      by (rule flush_count_step)
    have tm: "step_time c now lu = (if step_flush c now lu then now else lu)"
      by (simp add: step_time_def)
    consider (aborted) "s' = s"
      | (handoff) "s' = ?s1"
      | (continue) "for_await controller m rest (mt @ delta_text c) (step_time c now lu)
                      (step_pending pend c) ?s1 = (ex, s')"
      using Cons.prems(2) Chunk by (auto simp: for_await_Chunk split: if_splits)
    then show ?thesis
    proof cases
      case aborted
      with Cons.prems(3) show ?thesis by simp
    next
      case handoff
      with Cons.prems(3) fc1 show ?thesis
        by (auto split: if_splits)
    next
      case continue
      show ?thesis
      proof (cases "step_flush c now lu")
        case True
        from for_await_flush_gap [OF rest' continue]
        have "flush_count ?s1 < flush_count s' \<longrightarrow>
                now + 1000 * (int (flush_count s') - int (flush_count ?s1)) < finish"
          using True tm by simp
        with Cons.prems(3) fc1 True now show ?thesis
          by auto
      next
        case False
        with fc1 have "2 \<le> int (flush_count s') - int (flush_count ?s1)"
          using Cons.prems(3) by simp
        from Cons.IH [OF rest continue this] show ?thesis
          using fc1 False by simp
      qed
    qed
  qed
qed

lemma for_await_trace_extends:
  "for_await controller m items mt lu pend s = (ex, s') \<Longrightarrow> \<exists>more. trace s' = trace s @ more"
proof (induction items arbitrary: mt lu pend s)
  case Nil
  then show ?case by simp
next
  case (Cons item rest)
  show ?case
  proof (cases item)
    case (StreamThrows e)
    with Cons.prems show ?thesis by simp
  next
    case (StopArrives ev)
    with Cons.prems
    have "for_await controller m rest mt lu pend (handleStopGenerating ev s) = (ex, s')"
      by simp
    from Cons.IH [OF this] obtain more where "trace s' = trace (handleStopGenerating ev s) @ more"
      by blast
    moreover have "\<exists>e. trace (handleStopGenerating ev s) = trace s @ e"
      by (simp add: handleStopGenerating_def emit_def abort_all_def)
    ultimately show ?thesis
      by auto
  next
    case (Chunk c now)
    let ?s1 = "step_state m c now mt lu s"
    consider (aborted) "s' = s"
      | (handoff) "s' = ?s1"
      | (continue) "for_await controller m rest (mt @ delta_text c) (step_time c now lu)
                      (step_pending pend c) ?s1 = (ex, s')"
      using Cons.prems Chunk by (auto simp: for_await_Chunk split: if_splits)
    then show ?thesis
    proof cases
      case aborted
      then show ?thesis by simp
    next
      case handoff
      then show ?thesis by (simp add: step_state_trace)
    next
      case continue
      from Cons.IH [OF this] obtain more where "trace s' = trace ?s1 @ more"
        by blast
      then show ?thesis
        by (simp add: step_state_trace)
    qed
  qed
qed

lemma for_await_quiet_prefix:
  "list_all is_quiet pre \<Longrightarrow> \<not> signal_aborted s controller \<Longrightarrow>
   for_await controller m (pre @ items) mt lu [] s = for_await controller m items mt lu [] s"
proof (induction pre)
  case Nil
  then show ?case by simp
next
  case (Cons item pre)
  from Cons.prems obtain c now where item: "item = Chunk c now"
    and q: "\<not> truthy (chunk_content c)" "chunk_fragments c = []"
    by (cases item) auto
  have dt: "delta_text c = []"
    using q(1) by (cases "chunk_content c") (auto simp: delta_text_def truthy_def)
  show ?case
    using Cons q dt
    by (simp add: item for_await_Chunk step_pending_def step_state_def step_time_def step_flush_def)
qed

lemma ceil_div_bound: "1000 * (k - 1) < T \<Longrightarrow> k \<le> ceil_div T 1000"
proof -
  assume "1000 * (k - 1) < T"
  then have "- T \<le> 1000 * (- k) + 999"
    by simp
  then have "(- T) div 1000 \<le> (1000 * (- k) + 999) div 1000"
    by (rule zdiv_mono1) simp
  also have "\<dots> = - k"
    by simp
  finally show ?thesis
    by (simp add: ceil_div_def)
qed

text \<open>
  C8 (as stated) fails for a run of duration 0 on the millisecond clock: the first text
  delta is written at once, so a stream whose only chunk arrives at the reading the run
  started with makes one partial write, and the ceiling of 0/1000 is 0.
\<close>

theorem flush_bound_zero_duration_counterexample:
  "\<not> (int (flush_count (snd (for_await 0 \<lparr> msg_cid = ''c1'', msg_id = ''m1'' \<rparr>
                               [Chunk (text_chunk ''Hi'') 1700000000000] [] 0 [] ready_agent)))
         - int (flush_count ready_agent)
       \<le> ceil_div (1700000000000 - 1700000000000) 1000)"
  by (simp add: for_await_Chunk step_state_def step_flush_def step_pending_def step_time_def
      chunk_fragments_def chunk_tool_calls_def chunk_delta_def chunk_content_def
      chunk_finish_reason_def text_chunk_def truthy_def delta_text_def emit_def flush_count_def
      ready_agent_eq ceil_div_def)

text \<open>
  C8 (amended). Let every clock reading of the loop lie between \<open>start\<close> and \<open>finish\<close>,
  and let \<open>T = finish - start\<close>. The partial writes of the loop (the final write comes
  after the loop) number at most the ceiling of \<open>T / 1000\<close> when \<open>T > 0\<close>, and at most one
  when \<open>T = 0\<close>; the threshold is measured from the previous write. The first chunk that
  carries text is written at once, given a clock that reads more than 1000 (any date
  after the first second of 1970): the loop starts with a last write time of 0. The
  throttled writes of the response handler over a run of message deltas obey the same
  bound.
\<close>

theorem partial_flush_bound:
  "((\<forall>t \<in> set (item_times items). start \<le> t \<and> t \<le> finish) \<and>
    for_await controller m items [] 0 [] s = (ex, s')
      \<longrightarrow> flush_count s \<le> flush_count s' \<and>
          int (flush_count s') - int (flush_count s) \<le> max 1 (ceil_div (finish - start) 1000) \<and>
          (0 < finish - start \<longrightarrow>
             int (flush_count s') - int (flush_count s) \<le> ceil_div (finish - start) 1000)) \<and>
   (list_all is_quiet pre \<and> truthy (chunk_content c) \<and> 1000 < now \<and> \<not> signal_aborted s controller
      \<longrightarrow> (\<exists>more. trace (snd (for_await controller m (pre @ Chunk c now # rest) [] 0 [] s)) =
                     trace s @ PartialUpdateMessage (msg_id m) (the (chunk_content c)) # more)) \<and>
   (list_all is_delta_event es \<and> (\<forall>t \<in> set (event_times es). start \<le> t \<and> t \<le> finish) \<and>
    handleStreamEvents es h = Inr h'
      \<longrightarrow> h_flush_count h \<le> h_flush_count h' \<and>
          int (h_flush_count h') - int (h_flush_count h) \<le> max 1 (ceil_div (finish - start) 1000) \<and>
          (0 < finish - start \<longrightarrow>
             int (h_flush_count h') - int (h_flush_count h) \<le> ceil_div (finish - start) 1000))"
proof (intro conjI impI)
  assume a: "(\<forall>t \<in> set (item_times items). start \<le> t \<and> t \<le> finish) \<and>
             for_await controller m items [] 0 [] s = (ex, s')"
  then have bounds: "\<forall>t \<in> set (item_times items). start \<le> t \<and> t \<le> finish"
    and run: "for_await controller m items [] 0 [] s = (ex, s')"
    by simp_all
  from bounds have up: "\<forall>t \<in> set (item_times items). t \<le> finish"
    by simp
  from for_await_flush_gap [OF up run] show mono: "flush_count s \<le> flush_count s'"
    by simp
  let ?d = "int (flush_count s') - int (flush_count s)"
  have span: "2 \<le> ?d \<Longrightarrow> 1000 * (?d - 1) < finish - start"
    using for_await_flush_span [OF bounds run] by simp
  have ceil: "k \<le> ceil_div T 1000" if "1000 * (k - 1) < T" for k T :: int
    using that by (rule ceil_div_bound)
  show "?d \<le> max 1 (ceil_div (finish - start) 1000)"
  proof (cases "2 \<le> ?d")
    case True
    from ceil [OF span [OF True]] show ?thesis by simp
  next
    case False
    then show ?thesis by simp
  qed
  show "?d \<le> ceil_div (finish - start) 1000" if pos: "0 < finish - start"
  proof (cases "2 \<le> ?d")
    case True
    from ceil [OF span [OF True]] show ?thesis .
  next
    case False
    then have "1000 * (?d - 1) < finish - start"
      using pos by simp
    from ceil [OF this] show ?thesis .
  qed
next
  assume b: "list_all is_quiet pre \<and> truthy (chunk_content c) \<and> 1000 < now \<and>
             \<not> signal_aborted s controller"
  then have q: "list_all is_quiet pre" and tr: "truthy (chunk_content c)" and clock: "1000 < now"
    and na: "\<not> signal_aborted s controller"
    by simp_all
  have dt: "delta_text c = the (chunk_content c)"
    using tr by (cases "chunk_content c") (auto simp: delta_text_def truthy_def)
  have fl: "step_flush c now 0"
    using tr clock by (simp add: step_flush_def)
  let ?s1 = "step_state m c now [] 0 s"
  have t1: "trace ?s1 = trace s @ [PartialUpdateMessage (msg_id m) (the (chunk_content c))]"
    using fl by (simp add: step_state_trace dt)
  obtain ex' s'' where r: "for_await controller m (Chunk c now # rest) [] 0 [] s = (ex', s'')"
    by (cases "for_await controller m (Chunk c now # rest) [] 0 [] s") auto
  have "\<exists>more. trace s'' = trace ?s1 @ more"
  proof (cases "chunk_finish_reason c = Some ''tool_calls'' \<and> step_pending [] c \<noteq> []")
    case True
    with r na have "s'' = ?s1"
      by (simp add: for_await_Chunk)
    then show ?thesis by simp
  next
    case False
    with r na have "for_await controller m rest ([] @ delta_text c) (step_time c now 0)
                      (step_pending [] c) ?s1 = (ex', s'')"
      by (simp add: for_await_Chunk)
    from for_await_trace_extends [OF this] show ?thesis .
  qed
  then obtain more where "trace s'' = trace s @ PartialUpdateMessage (msg_id m) (the (chunk_content c)) # more"
    using t1 by auto
  then show "\<exists>more. trace (snd (for_await controller m (pre @ Chunk c now # rest) [] 0 [] s)) =
                     trace s @ PartialUpdateMessage (msg_id m) (the (chunk_content c)) # more"
    using for_await_quiet_prefix [OF q na, of m "Chunk c now # rest" "[]" 0] r by simp
next
  assume a: "list_all is_delta_event es \<and>
             (\<forall>t \<in> set (event_times es). start \<le> t \<and> t \<le> finish) \<and>
             handleStreamEvents es h = Inr h'"
  then have d: "list_all is_delta_event es"
    and bounds: "\<forall>t \<in> set (event_times es). start \<le> t \<and> t \<le> finish"
    and run: "handleStreamEvents es h = Inr h'"
    by simp_all
  from bounds have up: "\<forall>t \<in> set (event_times es). t \<le> finish"
    by simp
  from handler_flush_gap [OF d up run] show "h_flush_count h \<le> h_flush_count h'"
    by simp
  let ?d = "int (h_flush_count h') - int (h_flush_count h)"
  have span: "2 \<le> ?d \<Longrightarrow> 1000 * (?d - 1) < finish - start"
    using handler_flush_span [OF d bounds run] by simp
  show "?d \<le> max 1 (ceil_div (finish - start) 1000)"
  proof (cases "2 \<le> ?d")
    case True
    from ceil_div_bound [OF span [OF True]] show ?thesis by simp
  next
    case False
    then show ?thesis by simp
  qed
  show "?d \<le> ceil_div (finish - start) 1000" if pos: "0 < finish - start"
  proof (cases "2 \<le> ?d")
    case True
    from ceil_div_bound [OF span [OF True]] show ?thesis .
  next
    case False
    then have "1000 * (?d - 1) < finish - start"
      using pos by simp
    from ceil_div_bound [OF this] show ?thesis .
  qed
qed

theorem partial_flush_bound_witness:
  "int (flush_count (snd (for_await 0 \<lparr> msg_cid = ''c1'', msg_id = ''m1'' \<rparr>
          [Chunk (text_chunk ''a'') 1700000000000, Chunk (text_chunk ''b'') 1700000000500,
           Chunk (text_chunk ''c'') 1700000001001, Chunk (text_chunk ''d'') 1700000002500]
          [] 0 [] ready_agent)))
     - int (flush_count ready_agent) \<le> 3 \<and>
   (\<exists>more. trace (snd (for_await 0 \<lparr> msg_cid = ''c1'', msg_id = ''m1'' \<rparr>
          ([Chunk (text_chunk []) 1700000000000] @ Chunk (text_chunk ''a'') 1700000000001 # [])
          [] 0 [] ready_agent))
      = trace ready_agent @ PartialUpdateMessage ''m1'' ''a'' # more) \<and>
   (\<exists>h'. handleStreamEvents
            [ThreadMessageDelta (Some (TextDelta (Some (Some ''a'')))) 1700000000000,
             ThreadMessageDelta (Some (TextDelta (Some (Some ''b'')))) 1700000002500]
            (new_handler ''t1'' \<lparr> msg_cid = ''c1'', msg_id = ''m1'' \<rparr>) = Inr h' \<and>
         int (h_flush_count h')
           - int (h_flush_count (new_handler ''t1'' \<lparr> msg_cid = ''c1'', msg_id = ''m1'' \<rparr>)) \<le> 3)"
proof -
  let ?m = "\<lparr> msg_cid = ''c1'', msg_id = ''m1'' \<rparr>"
  let ?items = "[Chunk (text_chunk ''a'') 1700000000000, Chunk (text_chunk ''b'') 1700000000500,
                 Chunk (text_chunk ''c'') 1700000001001, Chunk (text_chunk ''d'') 1700000002500]"
  let ?es = "[ThreadMessageDelta (Some (TextDelta (Some (Some ''a'')))) 1700000000000,
              ThreadMessageDelta (Some (TextDelta (Some (Some ''b'')))) 1700000002500]"
  let ?h = "new_handler ''t1'' ?m"
  obtain ex s' where run: "for_await 0 ?m ?items [] 0 [] ready_agent = (ex, s')"
    by (cases "for_await 0 ?m ?items [] 0 [] ready_agent") auto
  obtain h' where hrun: "handleStreamEvents ?es ?h = Inr h'"
    by (simp add: Let_def)
  note T = partial_flush_bound [where items = ?items and start = 1700000000000
      and finish = 1700000002500 and controller = 0 and m = ?m and s = ready_agent and ex = ex
      and s' = s' and pre = "[Chunk (text_chunk []) 1700000000000]" and c = "text_chunk ''a''"
      and now = 1700000000001 and rest = "[]" and es = ?es and h = ?h and h' = h']
  have bounds: "\<forall>t \<in> set (item_times ?items). 1700000000000 \<le> t \<and> t \<le> 1700000002500"
    by simp
  have hbounds: "\<forall>t \<in> set (event_times ?es). 1700000000000 \<le> t \<and> t \<le> 1700000002500"
    by simp
  have hd: "list_all is_delta_event ?es"
    by simp
  have cd: "ceil_div (1700000002500 - 1700000000000) 1000 = 3"
    by (simp add: ceil_div_def)
  have q: "list_all is_quiet [Chunk (text_chunk []) 1700000000000]"
    by (simp add: text_chunk_def truthy_def chunk_content_def chunk_delta_def chunk_fragments_def
        chunk_tool_calls_def)
  have tr: "truthy (chunk_content (text_chunk ''a''))"
    by (simp add: text_chunk_def truthy_def chunk_content_def chunk_delta_def)
  have na: "\<not> signal_aborted ready_agent 0"
    by (simp add: ready_agent_eq)
  have th: "the (chunk_content (text_chunk ''a'')) = ''a''"
    by (simp add: text_chunk_def chunk_content_def chunk_delta_def)
  have clock: "(1000::int) < 1700000000001"
    by simp
  have a: "int (flush_count (snd (for_await 0 ?m ?items [] 0 [] ready_agent)))
             - int (flush_count ready_agent) \<le> 3"
    using T [THEN conjunct1, rule_format, OF conjI [OF bounds run]] cd run by simp
  have b: "\<exists>more. trace (snd (for_await 0 ?m
          ([Chunk (text_chunk []) 1700000000000] @ Chunk (text_chunk ''a'') 1700000000001 # [])
          [] 0 [] ready_agent))
      = trace ready_agent @ PartialUpdateMessage ''m1'' ''a'' # more"
    using T [THEN conjunct2, THEN conjunct1, rule_format,
             OF conjI [OF q conjI [OF tr conjI [OF clock na]]]]
    unfolding th by simp
  have c: "int (h_flush_count h') - int (h_flush_count ?h) \<le> 3"
    using T [THEN conjunct2, THEN conjunct2, rule_format, OF conjI [OF hd conjI [OF hbounds hrun]]] cd
    by simp
  from a b c hrun show ?thesis
    by blast
qed

section \<open>Tool calls\<close>



lemma for_await_openai:
  "for_await controller m items mt lu pend s = (ex, s') \<Longrightarrow> openai s' = openai s"
proof (induction items arbitrary: mt lu pend s)
  case Nil
  then show ?case by simp
next
  case (Cons item rest)
  show ?case
  proof (cases item)
    case (StreamThrows e)
    with Cons.prems show ?thesis by simp
  next
    case (StopArrives ev)
    with Cons.prems
    have "for_await controller m rest mt lu pend (handleStopGenerating ev s) = (ex, s')"
      by simp
    from Cons.IH [OF this] show ?thesis
      by (simp add: handleStopGenerating_def emit_def abort_all_def)
  next
    case (Chunk c now)
    let ?s1 = "step_state m c now mt lu s"
    consider (aborted) "s' = s"
      | (handoff) "s' = ?s1"
      | (continue) "for_await controller m rest (mt @ delta_text c) (step_time c now lu)
                      (step_pending pend c) ?s1 = (ex, s')"
      using Cons.prems Chunk by (auto simp: for_await_Chunk split: if_splits)
    then show ?thesis
    proof cases
      case aborted
      then show ?thesis by simp
    next
      case handoff
      then show ?thesis by (simp add: step_state_fields)
    next
      case continue
      from Cons.IH [OF this] show ?thesis
        by (simp add: step_state_fields)
    qed
  qed
qed


lemmas loop_defs =
  for_await_Chunk step_state_def step_flush_def step_time_def step_pending_def delta_text_def
  chunk_fragments_def chunk_content_def chunk_delta_def chunk_tool_calls_def
  chunk_finish_reason_def text_chunk_def tool_chunk_def tool_delta_def truthy_def
  mergeToolCall_def slot_at_def assign_slot_def update_slot_def delta_name_def
  delta_arguments_def Let_def

lemmas generation_defs =
  register_controller_def emit_def retire_def push_turns_def catch_error_def
  handleStreamError_def handleStopGenerating_def abort_all_def




section \<open>Cancellation observed in the stream\<close>

text \<open>
  C1: the code does not do what the claim says when the loop itself observes the abort.
  A stop event arrives after the first chunk; at the next chunk the loop sees the aborted
  signal and leaves by \<open>break\<close>, which continues after the loop: the text so far is written
  once more as the final text, it is appended as an assistant turn, and a second clear is
  sent after the clear of the stop handler. The silent end that the claim describes is
  what the same function does when the aborted stream throws an AbortError instead: the
  \<open>catch\<close> ignores it, nothing is written, appended or sent.
\<close>

theorem abort_seen_by_loop_flushes_and_clears:
  "map_option (\<lambda>s. (trace s, conversationHistory s))
     (processMessageWithGemini example_world
        [\<lparr> create_result = Inr
             [Chunk (text_chunk ''Hel'') 1700000000000,
              StopArrives \<lparr> ev_cid = Some ''c1'', ev_message_id = Some ''m1'' \<rparr>,
              Chunk (text_chunk ''lo'') 1700000000100],
           search_envs = no_search \<rparr>]
        \<lparr> msg_cid = ''c1'', msg_id = ''m1'' \<rparr> ready_agent)
     = Some ([ChatOn ''message.new'', ChatOn ''ai_indicator.stop'',
              IndicatorUpdate AI_STATE_GENERATING (Some ''c1'') (Some ''m1''),
              PartialUpdateMessage ''m1'' ''Hel'',
              IndicatorClear (Some ''c1'') (Some ''m1''),
              PartialUpdateMessage ''m1'' ''Hel'',
              IndicatorClear (Some ''c1'') (Some ''m1'')],
             [SystemTurn (getWritingAssistantPrompt ''November 3, 2026'' None),
              AssistantTurn ''Hel'']) \<and>
   map_option (\<lambda>s. (trace s, conversationHistory s))
     (processMessageWithGemini example_world
        [\<lparr> create_result = Inr
             [Chunk (text_chunk ''Hel'') 1700000000000,
              StopArrives \<lparr> ev_cid = Some ''c1'', ev_message_id = Some ''m1'' \<rparr>,
              StreamThrows (JsError ''AbortError'' (Some ''Request was aborted.''))],
           search_envs = no_search \<rparr>]
        \<lparr> msg_cid = ''c1'', msg_id = ''m1'' \<rparr> ready_agent)
     = Some ([ChatOn ''message.new'', ChatOn ''ai_indicator.stop'',
              IndicatorUpdate AI_STATE_GENERATING (Some ''c1'') (Some ''m1''),
              PartialUpdateMessage ''m1'' ''Hel'',
              IndicatorClear (Some ''c1'') (Some ''m1'')],
             [SystemTurn (getWritingAssistantPrompt ''November 3, 2026'' None)])"
  by (simp add: ready_agent_eq loop_defs generation_defs)

section \<open>Properties of the conversation history\<close>

text \<open>
  The trimming of \<open>handleMessage\<close>: at most 21 turns are left, element 0 is kept, and so
  are the last twenty of the others, in their order.
\<close>

lemma trim_history_length:
  "length (trim_history h) \<le> 21"
  by (simp add: trim_history_def)

lemma trim_history_shape:
  "trim_history (t # rest @ [u]) = t # drop (length (rest @ [u]) - 20) (rest @ [u])"
proof (cases "length (t # rest @ [u]) > 21")
  case True
  then have "length (t # rest @ [u]) - 20 = Suc (length (rest @ [u]) - 20)"
    by simp
  then show ?thesis
    using True by (simp add: trim_history_def del: length_append)
next
  case False
  then show ?thesis
    by (simp add: trim_history_def)
qed

lemma handleMessage_sync_history:
  "conversationHistory s = SystemTurn p # rest \<Longrightarrow>
   conversationHistory (handleMessage_sync env message writingTask s) =
     SystemTurn (if truthy writingTask
                 then getWritingAssistantPrompt (env_currentDate env)
                        (Some (''Writing Task: '' @ the writingTask))
                 else p)
       # drop (length (rest @ [UserTurn message]) - 20) (rest @ [UserTurn message])"
  by (simp add: handleMessage_sync_def Let_def push_turns_def set_system_prompt_def
      trim_history_shape del: length_append)

lemma handleMessage_sync_openai:
  "openai (handleMessage_sync env message writingTask s) = openai s"
  by (simp add: handleMessage_sync_def Let_def push_turns_def)

text \<open>
  Outside the synchronous part of \<open>handleMessage\<close> the history is only pushed on: the
  stream loop, the stop handler, the error handler and the \<open>finally\<close> leave it as it is,
  the loop over the tool calls collects tool turns, and a generation with its tool rounds
  appends assistant, tool-call and tool turns.
\<close>

lemma for_await_history:
  "for_await controller m items mt lu pend s = (ex, s') \<Longrightarrow>
   conversationHistory s' = conversationHistory s"
proof (induction items arbitrary: mt lu pend s)
  case Nil
  then show ?case by simp
next
  case (Cons item rest)
  show ?case
  proof (cases item)
    case (StreamThrows e)
    with Cons.prems show ?thesis by simp
  next
    case (StopArrives ev)
    with Cons.prems
    have "for_await controller m rest mt lu pend (handleStopGenerating ev s) = (ex, s')"
      by simp
    from Cons.IH [OF this] show ?thesis
      by (simp add: handleStopGenerating_def emit_def abort_all_def)
  next
    case (Chunk c now)
    let ?s1 = "step_state m c now mt lu s"
    consider (aborted) "s' = s"
      | (handoff) "s' = ?s1"
      | (continue) "for_await controller m rest (mt @ delta_text c) (step_time c now lu)
                      (step_pending pend c) ?s1 = (ex, s')"
      using Cons.prems Chunk by (auto simp: for_await_Chunk split: if_splits)
    then show ?thesis
    proof cases
      case aborted
      then show ?thesis by simp
    next
      case handoff
      then show ?thesis by (simp add: step_state_fields)
    next
      case continue
      from Cons.IH [OF this] show ?thesis
        by (simp add: step_state_fields)
    qed
  qed
qed

lemma toolLoop_frame:
  "toolLoop w envs k calls acc s = (err, results, s') \<Longrightarrow>
   conversationHistory s' = conversationHistory s \<and> openai s' = openai s \<and>
   (list_all is_reply acc \<longrightarrow> list_all is_reply results)"
proof (induction calls arbitrary: k acc s)
  case Nil
  then show ?case by simp
next
  case (Cons c calls)
  show ?case
  proof (cases c)
    case None
    with Cons.prems show ?thesis by simp
  next
    case (Some tc)
    show ?thesis
    proof (cases "tc_name tc = ''web_search''")
      case False
      with Cons.prems Some have "toolLoop w envs (Suc k) calls acc s = (err, results, s')"
        by simp
      from Cons.IH [OF this] show ?thesis .
    next
      case True
      then obtain x s1 where
        run: "toolLoop w envs (Suc k) calls (acc @ [ToolTurn (tc_id tc) x]) s1 = (err, results, s')"
        and h: "conversationHistory s1 = conversationHistory s"
        and o: "openai s1 = openai s"
        using Cons.prems Some by (auto split: sum.splits)
      from Cons.IH [OF run] h o show ?thesis
        by simp
    qed
  qed
qed

lemma finally_fields:
  "conversationHistory (retire c s) = conversationHistory s"
  "openai (retire c s) = openai s"
  "conversationHistory (catch_error e m s) = conversationHistory s"
  "openai (catch_error e m s) = openai s"
  "conversationHistory (emit x s) = conversationHistory s"
  "openai (emit x s) = openai s"
  "conversationHistory (register_controller s) = conversationHistory s"
  "openai (register_controller s) = openai s"
  "conversationHistory (push_turns ts s) = conversationHistory s @ ts"
  "openai (push_turns ts s) = openai s"
  by (simp_all add: retire_def catch_error_def handleStreamError_def emit_def
      register_controller_def push_turns_def)

lemma handleToolCalls_appends:
  assumes gen: "\<And>m s s'. processMessageWithGemini w gens m s = Some s' \<Longrightarrow>
                  \<exists>appended. list_all is_reply appended \<and>
                    conversationHistory s' = conversationHistory s @ appended \<and>
                    openai s' = openai s"
    and run: "handleToolCalls w gens envs calls m s = Some (err, s')"
  shows "\<exists>appended. list_all is_reply appended \<and>
           conversationHistory s' = conversationHistory s @ appended \<and> openai s' = openai s"
proof (cases "openai s = None")
  case True
  with run have "s' = s"
    by simp
  then show ?thesis
    by simp
next
  case False
  then have o: "(openai s = None) = False"
    by simp
  obtain e results s1 where
    tl: "toolLoop w envs 0 calls [] (push_turns [AssistantToolCalls calls] s) = (e, results, s1)"
    by (cases "toolLoop w envs 0 calls [] (push_turns [AssistantToolCalls calls] s)") auto
  from toolLoop_frame [OF tl]
  have h1: "conversationHistory s1 = conversationHistory s @ [AssistantToolCalls calls]"
    and o1: "openai s1 = openai s"
    and r: "list_all is_reply results"
    by (simp_all add: finally_fields)
  show ?thesis
  proof (cases e)
    case (Some error)
    with run tl o have "s' = s1"
      by (simp only: handleToolCalls.simps if_False prod.case option.case) simp
    with h1 o1 show ?thesis
      by simp
  next
    case None
    with run tl o
    have "map_option (Pair None) (processMessageWithGemini w gens m (push_turns results s1))
            = Some (err, s')"
      by (simp only: handleToolCalls.simps if_False prod.case option.case)
    then have "processMessageWithGemini w gens m (push_turns results s1) = Some s'"
      by auto
    from gen [OF this] obtain appended where
      a: "list_all is_reply appended"
      and h: "conversationHistory s' = conversationHistory (push_turns results s1) @ appended"
      and o2: "openai s' = openai (push_turns results s1)"
      by blast
    have "list_all is_reply (AssistantToolCalls calls # results @ appended)"
      using a r by simp
    moreover have "conversationHistory s' =
        conversationHistory s @ (AssistantToolCalls calls # results @ appended)"
      using h h1 by (simp add: finally_fields)
    moreover have "openai s' = openai s"
      using o2 o1 by (simp add: finally_fields)
    ultimately show ?thesis
      by blast
  qed
qed

lemma generation_appends:
  "processMessageWithGemini w gens m s = Some s' \<Longrightarrow>
   \<exists>appended. list_all is_reply appended \<and>
     conversationHistory s' = conversationHistory s @ appended \<and> openai s' = openai s"
proof (induction gens arbitrary: m s s')
  case Nil
  then show ?case
    by (simp split: if_splits)
next
  case (Cons g rest)
  show ?case
  proof (cases "openai s = None")
    case True
    with Cons.prems show ?thesis
      by simp
  next
    case False
    then have o: "(openai s = None) = False"
      by simp
    let ?s2 = "emit (IndicatorUpdate AI_STATE_GENERATING (Some (msg_cid m)) (Some (msg_id m)))
                 (register_controller s)"
    show ?thesis
    proof (cases "create_result g")
      case (Inl error)
      with Cons.prems o have "s' = retire (fresh s) (catch_error error m ?s2)"
        by (simp only: processMessageWithGemini.simps if_False sum.case) simp
      then show ?thesis
        by (simp add: finally_fields)
    next
      case (Inr stream)
      obtain ex s3 where fa: "for_await (fresh s) m stream [] 0 [] ?s2 = (ex, s3)"
        by (cases "for_await (fresh s) m stream [] 0 [] ?s2") auto
      have h3: "conversationHistory s3 = conversationHistory s"
        using for_await_history [OF fa] by (simp add: finally_fields)
      have o3: "openai s3 = openai s"
        using for_await_openai [OF fa] by (simp add: finally_fields)
      show ?thesis
      proof (cases ex)
        case (LoopThrew error)
        with Cons.prems o Inr fa have "s' = retire (fresh s) (catch_error error m s3)"
          by (simp only: processMessageWithGemini.simps if_False sum.case prod.case
              loop_exit.case) simp
        with h3 o3 show ?thesis
          by (simp add: finally_fields)
      next
        case (LoopEnded messageText)
        with Cons.prems o Inr fa
        have "s' = retire (fresh s)
                (emit (IndicatorClear (Some (msg_cid m)) (Some (msg_id m)))
                  (push_turns [AssistantTurn messageText]
                    (emit (PartialUpdateMessage (msg_id m) messageText) s3)))"
          by (simp only: processMessageWithGemini.simps if_False sum.case prod.case
              loop_exit.case) simp
        with h3 o3 have "list_all is_reply [AssistantTurn messageText] \<and>
            conversationHistory s' = conversationHistory s @ [AssistantTurn messageText] \<and>
            openai s' = openai s"
          by (simp add: finally_fields)
        then show ?thesis
          by blast
      next
        case (ToolCallsRequested toolCalls)
        with Cons.prems o Inr fa
        have c: "(case handleToolCalls w rest (search_envs g) toolCalls m s3 of
                    None \<Rightarrow> None
                  | Some (Some error, s4) \<Rightarrow> Some (retire (fresh s) (catch_error error m s4))
                  | Some (None, s4) \<Rightarrow> Some (retire (fresh s) s4)) = Some s'"
          by (simp only: processMessageWithGemini.simps if_False sum.case prod.case
              loop_exit.case)
        then obtain err s4 where
          tc: "handleToolCalls w rest (search_envs g) toolCalls m s3 = Some (err, s4)"
          and fin: "conversationHistory s' = conversationHistory s4 \<and> openai s' = openai s4"
          by (auto simp: finally_fields split: option.splits)
        have "\<exists>appended. list_all is_reply appended \<and>
                conversationHistory s4 = conversationHistory s3 @ appended \<and>
                openai s4 = openai s3"
          by (rule handleToolCalls_appends [OF _ tc]) (rule Cons.IH)
        then obtain appended where
          "list_all is_reply appended"
          "conversationHistory s4 = conversationHistory s3 @ appended"
          "openai s4 = openai s3"
          by blast
        with fin h3 o3 show ?thesis
          by auto
      qed
    qed
  qed
qed

text \<open>
  One call of \<open>handleMessage\<close>, to the end of its generation and tool rounds, on a history
  that begins with a system prompt: element 0 is the prompt in force after the event, then
  come the turns kept by the trimming, then the turns that the generation appended.
\<close>

lemma kept_turns_length:
  "accepted e \<Longrightarrow> length (kept_turns e rest) \<le> 20"
  by (simp add: kept_turns_def)

lemma handleMessage_history:
  assumes o: "openai s \<noteq> None"
    and h: "conversationHistory s = SystemTurn p # rest"
    and run: "handleMessage w env gens e s = Some s'"
  shows "\<exists>appended. list_all is_reply appended \<and>
           conversationHistory s' =
             SystemTurn (prompt_after env e p) # kept_turns e rest @ appended \<and>
           openai s' = openai s"
proof (cases "accepted e")
  case False
  with run o have "s' = s"
    by (auto simp: handleMessage_def accepted_def split: option.splits if_splits)
  with h False show ?thesis
    by (simp add: prompt_after_def kept_turns_def)
next
  case True
  then obtain m where m: "e_message e = Some m" "\<not> m_ai_generated m" "truthy (m_text m)"
    by (auto simp: accepted_def split: option.splits)
  let ?s1 = "handleMessage_sync env (the (m_text m)) (m_writingTask m) s"
  let ?s2 = "emit (IndicatorUpdate AI_STATE_THINKING (Some (msg_cid (env_placeholder env)))
                     (Some (msg_id (env_placeholder env))))
               (emit (SendMessage [] True) ?s1)"
  from run o m have "processMessageWithGemini w gens (env_placeholder env) ?s2 = Some s'"
    by (simp add: handleMessage_def)
  from generation_appends [OF this] obtain appended where
    a: "list_all is_reply appended"
    and h': "conversationHistory s' = conversationHistory ?s2 @ appended"
    and o': "openai s' = openai ?s2"
    by blast
  have "conversationHistory ?s2 = SystemTurn (prompt_after env e p) # kept_turns e rest"
    using True m handleMessage_sync_history [OF h, of env "the (m_text m)" "m_writingTask m"]
    by (simp add: finally_fields prompt_after_def kept_turns_def user_text_def writing_task_def
        del: length_append)
  with a h' o' show ?thesis
    by (auto simp: finally_fields handleMessage_sync_openai)
qed

text \<open>
  A sequence of user messages, each handled to the end of its generation: element 0 is
  the prompt in force after the last of them, and the other elements are a suffix of the
  turns pushed so far, in the order of the pushes.
\<close>

lemma drop_suffix_append:
  "j \<le> length xs \<Longrightarrow> drop k (drop j xs @ ys) = drop (k + j) (xs @ ys)"
  by simp

lemma handleMessages_history:
  "openai s \<noteq> None \<Longrightarrow> conversationHistory s = SystemTurn p # rest \<Longrightarrow>
   handleMessages w msgs s = Some s' \<Longrightarrow>
   \<exists>k pushed. conversationHistory s' = SystemTurn (prompts_after msgs p) # drop k (rest @ pushed) \<and>
     filter is_user_turn pushed = user_turns msgs \<and>
     list_all (\<lambda>t. is_user_turn t \<or> is_reply t) pushed"
proof (induction msgs arbitrary: s p rest)
  case Nil
  then have "conversationHistory s' = SystemTurn (prompts_after [] p) # drop 0 (rest @ []) \<and>
     filter is_user_turn [] = user_turns [] \<and>
     list_all (\<lambda>t. is_user_turn t \<or> is_reply t) []"
    by simp
  then show ?case
    by blast
next
  case (Cons msg msgs)
  obtain env gens e where msg: "msg = (env, gens, e)"
    by (cases msg) auto
  from Cons.prems(3) msg obtain s1 where
    one: "handleMessage w env gens e s = Some s1"
    and more: "handleMessages w msgs s1 = Some s'"
    by (auto split: option.splits)
  from handleMessage_history [OF Cons.prems(1) Cons.prems(2) one] obtain appended where
    a: "list_all is_reply appended"
    and h1: "conversationHistory s1 =
               SystemTurn (prompt_after env e p) # kept_turns e rest @ appended"
    and o1: "openai s1 = openai s"
    by blast
  from o1 Cons.prems(1) have o1': "openai s1 \<noteq> None"
    by simp
  from Cons.IH [OF o1' h1 more] obtain k pushed where
    h': "conversationHistory s' =
           SystemTurn (prompts_after msgs (prompt_after env e p))
             # drop k ((kept_turns e rest @ appended) @ pushed)"
    and u: "filter is_user_turn pushed = user_turns msgs"
    and r: "list_all (\<lambda>t. is_user_turn t \<or> is_reply t) pushed"
    by blast
  have nu: "filter is_user_turn appended = []"
    using a by (induction appended) (auto elim: is_reply.elims)
  have ar: "list_all (\<lambda>t. is_user_turn t \<or> is_reply t) appended"
    using a by (induction appended) auto
  show ?case
  proof (cases "accepted e")
    case False
    then have "conversationHistory s' =
        SystemTurn (prompts_after (msg # msgs) p) # drop k (rest @ (appended @ pushed)) \<and>
        filter is_user_turn (appended @ pushed) = user_turns (msg # msgs) \<and>
        list_all (\<lambda>t. is_user_turn t \<or> is_reply t) (appended @ pushed)"
      using h' u r nu ar msg by (simp add: kept_turns_def)
    then show ?thesis
      by blast
  next
    case True
    let ?u = "UserTurn (user_text e)"
    let ?j = "length (rest @ [?u]) - 20"
    have "drop k ((kept_turns e rest @ appended) @ pushed) =
        drop (k + ?j) (rest @ (?u # appended @ pushed))"
      using True drop_suffix_append [of ?j "rest @ [?u]" k "appended @ pushed"]
      by (simp add: kept_turns_def del: length_append drop_append)
    then have "conversationHistory s' =
        SystemTurn (prompts_after (msg # msgs) p) # drop (k + ?j) (rest @ (?u # appended @ pushed)) \<and>
        filter is_user_turn (?u # appended @ pushed) = user_turns (msg # msgs) \<and>
        list_all (\<lambda>t. is_user_turn t \<or> is_reply t) (?u # appended @ pushed)"
      using h' u r nu ar msg True by simp
    then show ?thesis
      by blast
  qed
qed

lemma init_history:
  "init GEMINI_API_KEY currentDate s0 = Inr s \<Longrightarrow>
   openai s \<noteq> None \<and>
   conversationHistory s = SystemTurn (getWritingAssistantPrompt currentDate None) # []"
  by (auto simp: init_def emit_def truthy_def split: if_splits option.splits)

text \<open>
  C3 (as stated) fails in its length bound: only \<open>handleMessage\<close> trims, and it trims
  before the answer is appended. After eleven user messages, each answered by the model,
  the buffer holds the system prompt, the last twenty turns kept by the eleventh trimming,
  and the eleventh answer: 22 turns.
\<close>

theorem history_exceeds_window_counterexample:
  "map_option (\<lambda>s. length (conversationHistory s))
     (handleMessages example_world
        (replicate 11 (example_env, [answer ''ok''], user_says ''hello'')) ready_agent)
   = Some 22"
  by (simp add: ready_agent_eq numeral_eq_Suc handleMessage_def handleMessage_sync_def
      trim_history_def example_env_def user_says_def answer_def run_defs for_await.simps(4))

text \<open>
  C3 (amended). For every sequence of user messages handled after \<open>init\<close>, each to the end
  of its generations and tool rounds, element 0 of the buffer is the system prompt most
  recently set (the prompt of \<open>init\<close>, or that of the last accepted message with a writing
  task), and the other elements are a suffix of the turns pushed so far, in the order of
  the pushes: the user turns of the accepted messages, with the assistant, tool-call and
  tool-result turns between them. One \<open>handleMessage\<close> on a buffer that begins with a system
  prompt leaves that prompt (or the new one), then the last twenty of the former turns with
  the user turn, then the turns that its generations and tool rounds appended; a
  generation by itself only appends such turns, and the stop handler and \<open>dispose\<close> leave
  the buffer as it is. The length is at most 21 right after the trimming of \<open>handleMessage\<close>,
  and at most 21 plus the number of turns appended since, for nothing trims them before
  the next user message.
\<close>

theorem conversation_history_window:
  "length (conversationHistory (handleMessage_sync env message writingTask s)) \<le> 21 \<and>
   (init GEMINI_API_KEY currentDate s0 = Inr s \<and> handleMessages w msgs s = Some s' \<longrightarrow>
      (\<exists>k pushed.
         conversationHistory s' =
           SystemTurn (prompts_after msgs (getWritingAssistantPrompt currentDate None))
             # drop k pushed \<and>
         filter is_user_turn pushed = user_turns msgs \<and>
         list_all (\<lambda>t. is_user_turn t \<or> is_reply t) pushed)) \<and>
   (openai s \<noteq> None \<and> conversationHistory s = SystemTurn p # rest \<and>
    handleMessage w env gens e s = Some s' \<longrightarrow>
      (\<exists>appended.
         list_all is_reply appended \<and>
         conversationHistory s' = SystemTurn (prompt_after env e p) # kept_turns e rest @ appended \<and>
         (accepted e \<longrightarrow> length (conversationHistory s') \<le> 21 + length appended))) \<and>
   (processMessageWithGemini w gens m s = Some s' \<longrightarrow>
      (\<exists>appended. list_all is_reply appended \<and>
         conversationHistory s' = conversationHistory s @ appended)) \<and>
   conversationHistory (handleStopGenerating ev s) = conversationHistory s \<and>
   conversationHistory (dispose s) = conversationHistory s"
proof (intro conjI impI)
  show "length (conversationHistory (handleMessage_sync env message writingTask s)) \<le> 21"
    by (simp add: handleMessage_sync_def Let_def trim_history_length)
next
  assume a: "init GEMINI_API_KEY currentDate s0 = Inr s \<and> handleMessages w msgs s = Some s'"
  from init_history [of GEMINI_API_KEY currentDate s0 s] a
  have o: "openai s \<noteq> None"
    and h: "conversationHistory s = SystemTurn (getWritingAssistantPrompt currentDate None) # []"
    by simp_all
  from a have run: "handleMessages w msgs s = Some s'"
    by simp
  from handleMessages_history [OF o h run]
  show "\<exists>k pushed.
         conversationHistory s' =
           SystemTurn (prompts_after msgs (getWritingAssistantPrompt currentDate None))
             # drop k pushed \<and>
         filter is_user_turn pushed = user_turns msgs \<and>
         list_all (\<lambda>t. is_user_turn t \<or> is_reply t) pushed"
    by simp
next
  assume a: "openai s \<noteq> None \<and> conversationHistory s = SystemTurn p # rest \<and>
             handleMessage w env gens e s = Some s'"
  then have o: "openai s \<noteq> None"
    and h: "conversationHistory s = SystemTurn p # rest"
    and run: "handleMessage w env gens e s = Some s'"
    by simp_all
  from handleMessage_history [OF o h run] obtain appended where
    r: "list_all is_reply appended"
    and h': "conversationHistory s' = SystemTurn (prompt_after env e p) # kept_turns e rest @ appended"
    by blast
  have "accepted e \<longrightarrow> length (conversationHistory s') \<le> 21 + length appended"
    using h' kept_turns_length [of e rest] by simp
  with r h' show "\<exists>appended.
         list_all is_reply appended \<and>
         conversationHistory s' = SystemTurn (prompt_after env e p) # kept_turns e rest @ appended \<and>
         (accepted e \<longrightarrow> length (conversationHistory s') \<le> 21 + length appended)"
    by blast
next
  assume "processMessageWithGemini w gens m s = Some s'"
  from generation_appends [OF this]
  show "\<exists>appended. list_all is_reply appended \<and>
         conversationHistory s' = conversationHistory s @ appended"
    by blast
next
  show "conversationHistory (handleStopGenerating ev s) = conversationHistory s"
    by (simp add: handleStopGenerating_def emit_def abort_all_def)
next
  show "conversationHistory (dispose s) = conversationHistory s"
    by (simp add: dispose_def emit_def abort_all_def)
qed

theorem conversation_history_window_witness:
  "length (conversationHistory
       (handleMessage_sync example_env ''hello'' None
          (ready_agent\<lparr> conversationHistory :=
             SystemTurn ''prompt'' # map (\<lambda>n. UserTurn (string_of_nat n)) [0..<25] \<rparr>))) \<le> 21 \<and>
   (\<exists>s' k pushed.
      init (Some ''gemini-key'') ''November 3, 2026'' (new_agent 1700000000000) = Inr ready_agent \<and>
      handleMessages example_world
        (replicate 11 (example_env, [answer ''ok''], user_says ''hello'')) ready_agent = Some s' \<and>
      conversationHistory s' =
        SystemTurn (getWritingAssistantPrompt ''November 3, 2026'' None) # drop k pushed \<and>
      filter is_user_turn pushed = replicate 11 (UserTurn ''hello'') \<and>
      list_all (\<lambda>t. is_user_turn t \<or> is_reply t) pushed) \<and>
   (\<exists>s' appended.
      handleMessage example_world example_env [answer ''ok'']
        \<lparr> e_message = Some \<lparr> m_text = Some ''hello'', m_ai_generated = False,
                               m_writingTask = Some ''a poem'' \<rparr> \<rparr> ready_agent = Some s' \<and>
      list_all is_reply appended \<and>
      conversationHistory s' =
        SystemTurn (getWritingAssistantPrompt ''November 3, 2026'' (Some ''Writing Task: a poem''))
          # UserTurn ''hello'' # appended \<and>
      length (conversationHistory s') \<le> 21 + length appended) \<and>
   (\<exists>s' appended.
      processMessageWithGemini example_world [answer ''ok'']
        \<lparr> msg_cid = ''c1'', msg_id = ''m1'' \<rparr> ready_agent = Some s' \<and>
      list_all is_reply appended \<and>
      conversationHistory s' = conversationHistory ready_agent @ appended)"
proof -
  let ?long = "ready_agent\<lparr> conversationHistory :=
                 SystemTurn ''prompt'' # map (\<lambda>n. UserTurn (string_of_nat n)) [0..<25] \<rparr>"
  let ?msgs = "replicate 11 (example_env, [answer ''ok''], user_says ''hello'')"
  let ?e = "\<lparr> e_message = Some \<lparr> m_text = Some ''hello'', m_ai_generated = False,
                                  m_writingTask = Some ''a poem'' \<rparr> \<rparr>"
  let ?m = "\<lparr> msg_cid = ''c1'', msg_id = ''m1'' \<rparr>"
  let ?p = "getWritingAssistantPrompt ''November 3, 2026'' None"
  have a: "length (conversationHistory (handleMessage_sync example_env ''hello'' None ?long)) \<le> 21"
    by (rule conversation_history_window [THEN conjunct1])
  have i: "init (Some ''gemini-key'') ''November 3, 2026'' (new_agent 1700000000000)
             = Inr ready_agent"
    by (simp add: ready_agent_def init_def truthy_def)
  have "\<exists>s'. handleMessages example_world ?msgs ready_agent = Some s'"
    by (simp add: ready_agent_eq numeral_eq_Suc handleMessage_def handleMessage_sync_def
        trim_history_def example_env_def user_says_def answer_def run_defs for_await.simps(4))
  then obtain s11 where run: "handleMessages example_world ?msgs ready_agent = Some s11"
    by blast
  have pa: "prompts_after ?msgs ?p = ?p"
    by (simp add: numeral_eq_Suc prompt_after_def accepted_def writing_task_def user_says_def
        truthy_def)
  have ut: "user_turns ?msgs = replicate 11 (UserTurn ''hello'')"
    by (simp add: numeral_eq_Suc accepted_def user_text_def user_says_def truthy_def)
  have b: "\<exists>k pushed. conversationHistory s11 = SystemTurn ?p # drop k pushed \<and>
             filter is_user_turn pushed = replicate 11 (UserTurn ''hello'') \<and>
             list_all (\<lambda>t. is_user_turn t \<or> is_reply t) pushed"
    using conversation_history_window [THEN conjunct2, THEN conjunct1, rule_format,
        OF conjI [OF i run]]
    unfolding pa ut .
  have o: "openai ready_agent \<noteq> None"
    by (simp add: ready_agent_eq)
  have h: "conversationHistory ready_agent = SystemTurn ?p # []"
    by (simp add: ready_agent_eq)
  have "\<exists>s'. handleMessage example_world example_env [answer ''ok''] ?e ready_agent = Some s'"
    by (simp add: ready_agent_eq handleMessage_def handleMessage_sync_def
        trim_history_def example_env_def answer_def run_defs for_await.simps(4))
  then obtain s1 where
    one: "handleMessage example_world example_env [answer ''ok''] ?e ready_agent = Some s1"
    by blast
  have acc: "accepted ?e"
    by (simp add: accepted_def truthy_def)
  have pe: "prompt_after example_env ?e ?p =
              getWritingAssistantPrompt ''November 3, 2026'' (Some ''Writing Task: a poem'')"
    by (simp add: prompt_after_def accepted_def writing_task_def truthy_def example_env_def)
  have ke: "kept_turns ?e [] = [UserTurn ''hello'']"
    by (simp add: kept_turns_def accepted_def user_text_def truthy_def)
  have c: "\<exists>appended. list_all is_reply appended \<and>
             conversationHistory s1 =
               SystemTurn (getWritingAssistantPrompt ''November 3, 2026''
                             (Some ''Writing Task: a poem''))
                 # UserTurn ''hello'' # appended \<and>
             length (conversationHistory s1) \<le> 21 + length appended"
    using conversation_history_window [THEN conjunct2, THEN conjunct2, THEN conjunct1,
        rule_format, OF conjI [OF o conjI [OF h one]]] acc
    unfolding pe ke by simp
  have "\<exists>s'. processMessageWithGemini example_world [answer ''ok''] ?m ready_agent = Some s'"
    by (simp add: ready_agent_eq answer_def run_defs for_await.simps(4))
  then obtain s2 where
    gen: "processMessageWithGemini example_world [answer ''ok''] ?m ready_agent = Some s2"
    by blast
  have d: "\<exists>appended. list_all is_reply appended \<and>
             conversationHistory s2 = conversationHistory ready_agent @ appended"
    by (rule conversation_history_window [THEN conjunct2, THEN conjunct2, THEN conjunct2,
          THEN conjunct1, rule_format, OF gen])
  from a b c d i run one gen show ?thesis
    by blast
qed

end
